theory Spec2Isabelle
  imports Complex_Main "HOL-Library.Word"
begin

section \<open>Constants (config/constants.h)\<close>

text \<open>
  The macros are untyped integer literals in the source. Speeds and servo angles are
  only ever passed as \<open>uint8_t\<close>, so they are 8-bit words here; thresholds take part in
  \<open>int\<close> and \<open>float\<close> comparisons and stay integers; durations are milliseconds.
\<close>

definition SPEED_SLOW :: "8 word" where "SPEED_SLOW = 100"
definition SPEED_NORMAL :: "8 word" where "SPEED_NORMAL = 150"
definition SPEED_TURN :: "8 word" where "SPEED_TURN = 120"

definition DIST_OBSTACLE :: int where "DIST_OBSTACLE = 15"
definition DIST_WALL_HUG :: int where "DIST_WALL_HUG = 10"
definition DIST_BOX_PICKUP :: int where "DIST_BOX_PICKUP = 5"

definition COLOR_FREQ_MAX :: int where "COLOR_FREQ_MAX = 150"
definition COLOR_FREQ_BLACK :: int where "COLOR_FREQ_BLACK = 200"
definition COLOR_FREQ_WHITE :: int where "COLOR_FREQ_WHITE = 50"
definition COLOR_MARGIN :: int where "COLOR_MARGIN = 20"

definition SERVO_CLAMP_OPEN :: "8 word" where "SERVO_CLAMP_OPEN = 90"
definition SERVO_CLAMP_CLOSED :: "8 word" where "SERVO_CLAMP_CLOSED = 0"
definition SERVO_ARM_UP :: "8 word" where "SERVO_ARM_UP = 90"
definition SERVO_ARM_DOWN :: "8 word" where "SERVO_ARM_DOWN = 0"
definition SERVO_ARM_CARRY :: "8 word" where "SERVO_ARM_CARRY = 45"

definition TIME_TURN_90 :: int where "TIME_TURN_90 = 500"
definition TIME_SERVO_MOVE :: nat where "TIME_SERVO_MOVE = 300"
definition TIME_SENSOR_READ :: nat where "TIME_SENSOR_READ = 10"
definition TIME_LOOP_DELAY :: nat where "TIME_LOOP_DELAY = 50"

definition ULTRA_SPEED_CM :: real where "ULTRA_SPEED_CM = 0.034"

lemmas constants =
  SPEED_SLOW_def SPEED_NORMAL_def SPEED_TURN_def
  DIST_OBSTACLE_def DIST_WALL_HUG_def DIST_BOX_PICKUP_def
  COLOR_FREQ_MAX_def COLOR_FREQ_BLACK_def COLOR_FREQ_WHITE_def COLOR_MARGIN_def
  SERVO_CLAMP_OPEN_def SERVO_CLAMP_CLOSED_def SERVO_ARM_UP_def SERVO_ARM_DOWN_def
  SERVO_ARM_CARRY_def TIME_TURN_90_def TIME_SERVO_MOVE_def TIME_SENSOR_READ_def
  TIME_LOOP_DELAY_def ULTRA_SPEED_CM_def


section \<open>Data (core/sensors.h, core/navigation.h, core/motors.h)\<close>

datatype Color = COLOR_NONE | COLOR_BLACK | COLOR_WHITE | COLOR_RED | COLOR_GREEN | COLOR_BLUE

datatype NavResult = NAV_CONTINUE | NAV_TARGET_FOUND | NAV_OBSTACLE | NAV_LOST | NAV_TIMEOUT

record SensorData =
  redFreq :: "16 word"
  greenFreq :: "16 word"
  blueFreq :: "16 word"
  detectedColor :: Color
  previousColor :: Color
  distance :: real
  obstacleDetected :: bool
  leftOnLine :: bool
  rightOnLine :: bool

text \<open>
  The drive interface of class \<open>Motors\<close>. Its implementation writes pins; here every
  call is an event, named after the method, carrying the speed argument.
\<close>

datatype MotorCmd =
    Stop
  | Forward "8 word"
  | Backward "8 word"
  | TurnLeft "8 word"
  | TurnRight "8 word"
  | CurveLeft "8 word"
  | CurveRight "8 word"

text \<open>
  What the pins deliver at one instant: the width of the ultrasonic echo pulse and of
  the three colour pulses as \<open>pulseIn\<close> returns them (\<open>unsigned long\<close>, 0 on timeout),
  and the levels of the two reflectance inputs. The surroundings of the robot are a
  function from the millisecond clock to such a sample.
\<close>

datatype PinLevel = LOW | HIGH

record Sample =
  echoPulse :: "32 word"
  redPulse :: "32 word"
  greenPulse :: "32 word"
  bluePulse :: "32 word"
  irLeft :: PinLevel
  irRight :: PinLevel

type_synonym world = "nat \<Rightarrow> Sample"

text \<open>
  The static members of \<open>Navigation\<close> and \<open>Servos\<close>, together with three observers of
  the run: \<open>trace\<close> lists the \<open>Motors\<close> calls in the order issued, \<open>clock\<close> is
  \<open>millis()\<close> (advanced by \<open>delay\<close> only; a mission lasts minutes, far from the
  49-day wrap of the 32-bit counter), and \<open>pings\<close> counts calls of \<open>readDistance\<close>.
  \<open>searchDirection\<close> is an \<open>int8_t\<close>, read through \<open>sint\<close>.
\<close>

record Robot =
  trace :: "MotorCmd list"
  clock :: nat
  pings :: nat
  searchDirection :: "8 word"
  searchCount :: "8 word"
  lastStateChange :: nat
  holding :: bool
  currentClampAngle :: "8 word"
  currentArmAngle :: "8 word"

definition motor :: "MotorCmd \<Rightarrow> 'a Robot_scheme \<Rightarrow> 'a Robot_scheme" where
  "motor c m = m\<lparr>trace := trace m @ [c]\<rparr>"

definition delay :: "nat \<Rightarrow> 'a Robot_scheme \<Rightarrow> 'a Robot_scheme" where
  "delay ms m = m\<lparr>clock := clock m + ms\<rparr>"


section \<open>Sensors (sensors.cpp)\<close>

text \<open>
  \<open>readDistance\<close>: the trigger pulse takes microseconds and is below the resolution of
  the clock. The product \<open>duration * 0.034 / 2\<close> is computed over the reals: for an
  integer duration the exact value is a multiple of 0.017; no such multiple other than
  0 equals 5, 7, 15, 20 or 999, and the nearest ones are thousandths away, so rounding
  to \<open>float\<close> moves no reading across a threshold this program compares against.
\<close>

definition readDistance :: "world \<Rightarrow> 'a Robot_scheme \<Rightarrow> real \<times> 'a Robot_scheme" where
  "readDistance w m =
    (let duration = echoPulse (w (clock m));
         m' = m\<lparr>pings := pings m + 1\<rparr>
     in if duration = 0 then (999, m')
        else ((real (unat duration) * ULTRA_SPEED_CM) / 2, m'))"

definition readUltrasonic ::
  "world \<Rightarrow> SensorData \<Rightarrow> 'a Robot_scheme \<Rightarrow> SensorData \<times> 'a Robot_scheme" where
  "readUltrasonic w data m =
    (let (d, m') = readDistance w m;
         data1 = data\<lparr>distance := d\<rparr>;
         data2 = data1\<lparr>obstacleDetected :=
                   (distance data1 > 0 \<and> distance data1 < real_of_int DIST_OBSTACLE)\<rparr>
     in (data2, m'))"

text \<open>
  \<open>readColorRaw\<close>: each channel is sampled after its settling delay; the result of
  \<open>pulseIn\<close> is narrowed to \<open>uint16_t\<close>, and a timeout (0) becomes 999.
\<close>

definition readColorRaw ::
  "world \<Rightarrow> 'a Robot_scheme \<Rightarrow> (16 word \<times> 16 word \<times> 16 word) \<times> 'a Robot_scheme" where
  "readColorRaw w m =
    (let m1 = delay TIME_SENSOR_READ m;
         r = (ucast (redPulse (w (clock m1))) :: 16 word);
         m2 = delay TIME_SENSOR_READ m1;
         g = (ucast (greenPulse (w (clock m2))) :: 16 word);
         m3 = delay TIME_SENSOR_READ m2;
         b = (ucast (bluePulse (w (clock m3))) :: 16 word);
         r' = (if r = 0 then 999 else r);
         g' = (if g = 0 then 999 else g);
         b' = (if b = 0 then 999 else b)
     in ((r', g', b'), m3))"

text \<open>
  \<open>detectColor\<close>: the operands are \<open>uint16_t\<close> and the macros \<open>int\<close>; on the 32-bit
  target named by the README (UNO R4 Minima) both sides are promoted to \<open>int\<close>, so
  \<open>g - COLOR_MARGIN\<close> may be negative and never wraps.
\<close>

definition detectColor :: "16 word \<Rightarrow> 16 word \<Rightarrow> 16 word \<Rightarrow> Color" where
  "detectColor r g b =
    (if uint r > COLOR_FREQ_BLACK \<and> uint g > COLOR_FREQ_BLACK \<and> uint b > COLOR_FREQ_BLACK
       then COLOR_BLACK
     else if uint r < COLOR_FREQ_WHITE \<and> uint g < COLOR_FREQ_WHITE \<and> uint b < COLOR_FREQ_WHITE
       then COLOR_WHITE
     else if uint r < uint g - COLOR_MARGIN \<and> uint r < uint b - COLOR_MARGIN
             \<and> uint r < COLOR_FREQ_MAX
       then COLOR_RED
     else if uint g < uint r - COLOR_MARGIN \<and> uint g < uint b - COLOR_MARGIN
             \<and> uint g < COLOR_FREQ_MAX
       then COLOR_GREEN
     else if uint b < uint r - COLOR_MARGIN \<and> uint b < uint g - COLOR_MARGIN
             \<and> uint b < COLOR_FREQ_MAX
       then COLOR_BLUE
     else COLOR_NONE)"

definition Sensors_readColor ::
  "world \<Rightarrow> SensorData \<Rightarrow> 'a Robot_scheme \<Rightarrow> SensorData \<times> 'a Robot_scheme" where
  "Sensors_readColor w data m =
    (let ((r, g, b), m') = readColorRaw w m;
         data1 = data\<lparr>redFreq := r, greenFreq := g, blueFreq := b\<rparr>;
         data2 = data1\<lparr>detectedColor :=
                   detectColor (redFreq data1) (greenFreq data1) (blueFreq data1)\<rparr>
     in (data2, m'))"

definition readIR :: "world \<Rightarrow> 'a Robot_scheme \<Rightarrow> bool \<times> bool" where
  "readIR w m = (irLeft (w (clock m)) = LOW, irRight (w (clock m)) = LOW)"

definition readAll ::
  "world \<Rightarrow> SensorData \<Rightarrow> 'a Robot_scheme \<Rightarrow> SensorData \<times> 'a Robot_scheme" where
  "readAll w data m =
    (let data0 = data\<lparr>previousColor := detectedColor data\<rparr>;
         (data1, m1) = readUltrasonic w data0 m;
         (data2, m2) = Sensors_readColor w data1 m1;
         (l, r) = readIR w m2
     in (data2\<lparr>leftOnLine := l, rightOnLine := r\<rparr>, m2))"

text \<open>
  The standalone obstacle-course sketch has its own \<open>readColor()\<close>: the same three
  reads and timeout substitution, then a classification without the WHITE stage.
  \<open>obstacle_classify\<close> is that classification (the part under "Determine color"),
  \<open>obstacle_readColor\<close> the whole function applied to the three pulse widths.
\<close>

definition obstacle_classify :: "16 word \<Rightarrow> 16 word \<Rightarrow> 16 word \<Rightarrow> Color" where
  "obstacle_classify r g b =
    (if uint r > COLOR_FREQ_BLACK \<and> uint g > COLOR_FREQ_BLACK \<and> uint b > COLOR_FREQ_BLACK
       then COLOR_BLACK
     else if uint r < uint g - COLOR_MARGIN \<and> uint r < uint b - COLOR_MARGIN
             \<and> uint r < COLOR_FREQ_MAX
       then COLOR_RED
     else if uint g < uint r - COLOR_MARGIN \<and> uint g < uint b - COLOR_MARGIN
             \<and> uint g < COLOR_FREQ_MAX
       then COLOR_GREEN
     else if uint b < uint r - COLOR_MARGIN \<and> uint b < uint g - COLOR_MARGIN
             \<and> uint b < COLOR_FREQ_MAX
       then COLOR_BLUE
     else COLOR_NONE)"

definition obstacle_readColor :: "32 word \<Rightarrow> 32 word \<Rightarrow> 32 word \<Rightarrow> Color" where
  "obstacle_readColor pr pg pb =
    (let r = (ucast pr :: 16 word);
         g = (ucast pg :: 16 word);
         b = (ucast pb :: 16 word);
         r' = (if r = 0 then 999 else r);
         g' = (if g = 0 then 999 else g);
         b' = (if b = 0 then 999 else b)
     in obstacle_classify r' g' b')"


section \<open>Navigation (navigation.cpp)\<close>

definition followBlackLine :: "SensorData \<Rightarrow> 'a Robot_scheme \<Rightarrow> NavResult \<times> 'a Robot_scheme" where
  "followBlackLine data m =
    (if obstacleDetected data then (NAV_OBSTACLE, motor Stop m)
     else if leftOnLine data \<and> rightOnLine data
       then (NAV_CONTINUE, motor (Forward SPEED_NORMAL) m)
     else if leftOnLine data \<and> \<not> rightOnLine data
       then (NAV_CONTINUE, motor (CurveLeft SPEED_NORMAL) m)
     else if \<not> leftOnLine data \<and> rightOnLine data
       then (NAV_CONTINUE, motor (CurveRight SPEED_NORMAL) m)
     else (NAV_LOST, motor (Forward SPEED_SLOW) m))"

definition followColorLine ::
  "SensorData \<Rightarrow> Color \<Rightarrow> 'a Robot_scheme \<Rightarrow> NavResult \<times> 'a Robot_scheme" where
  "followColorLine data targetColor m =
    (if obstacleDetected data then (NAV_OBSTACLE, motor Stop m)
     else if detectedColor data = targetColor
       then (NAV_CONTINUE, (motor (Forward SPEED_NORMAL) m)\<lparr>searchCount := 0\<rparr>)
     else if detectedColor data \<noteq> COLOR_NONE \<and> detectedColor data \<noteq> targetColor
       then (NAV_TARGET_FOUND, motor Stop m)
     else
       (let m1 = motor (Forward SPEED_SLOW) m;
            m2 = m1\<lparr>searchCount := searchCount m1 + 1\<rparr>
        in if searchCount m2 > 10 then (NAV_LOST, m2) else (NAV_CONTINUE, m2)))"

definition navigateToCenter :: "SensorData \<Rightarrow> 'a Robot_scheme \<Rightarrow> NavResult \<times> 'a Robot_scheme" where
  "navigateToCenter data m =
    (let m1 = delay 100 (motor (Forward SPEED_SLOW) m)
     in if detectedColor data \<noteq> previousColor data \<and> detectedColor data \<noteq> COLOR_NONE
          then (NAV_TARGET_FOUND, m1\<lparr>searchCount := 0\<rparr>)
        else
          (let m2 = m1\<lparr>searchCount := searchCount m1 + 1\<rparr>
           in if searchCount m2 > 5 then
                (let m3 = (if 0 < sint (searchDirection m2)
                             then motor (TurnRight SPEED_TURN) m2
                             else motor (TurnLeft SPEED_TURN) m2);
                     m4 = motor Stop (delay 200 m3);
                     m5 = m4\<lparr>searchDirection := searchDirection m4 * (- 1)\<rparr>
                 in (NAV_CONTINUE, m5\<lparr>searchCount := 0\<rparr>))
              else (NAV_CONTINUE, m2)))"

text \<open>
  \<open>turn\<close>: \<open>degrees\<close> is an \<open>int16_t\<close>; the duration is computed in \<open>int\<close> and narrowed to
  \<open>uint16_t\<close>.
\<close>

definition turn :: "16 word \<Rightarrow> 8 word \<Rightarrow> 'a Robot_scheme \<Rightarrow> 'a Robot_scheme" where
  "turn degrees speed m =
    (let turnTime = nat ((\<bar>sint degrees\<bar> * TIME_TURN_90 div 90) mod 65536);
         m1 = (if 0 < sint degrees then motor (TurnRight speed) m
               else motor (TurnLeft speed) m);
         m2 = delay turnTime m1;
         m3 = motor Stop m2
     in delay 50 m3)"

text \<open>
  \<open>wallHugUntilClear\<close>: the \<open>for\<close> loop counts \<open>i\<close> up to \<open>maxSteps\<close>; the recursion is
  on the number of iterations still allowed. \<open>break\<close> leaves the loop without the
  50 ms pause; a reading that matches none of the three tests only pauses.
\<close>

fun wallHugLoop :: "world \<Rightarrow> nat \<Rightarrow> 'a Robot_scheme \<Rightarrow> 'a Robot_scheme" where
  "wallHugLoop w 0 m = m"
| "wallHugLoop w (Suc k) m =
    (let (dist, m1) = readDistance w m
     in if dist < real_of_int (DIST_WALL_HUG - 3)
          then wallHugLoop w k (delay 50 (motor (CurveRight SPEED_NORMAL) m1))
        else if dist < real_of_int (DIST_WALL_HUG + 5) \<and> dist > 0
          then wallHugLoop w k (delay 50 (motor (Forward SPEED_NORMAL) m1))
        else if dist > real_of_int (DIST_WALL_HUG + 10) \<or> dist \<ge> 999
          then m1
        else wallHugLoop w k (delay 50 m1))"

definition wallHugUntilClear :: "world \<Rightarrow> 8 word \<Rightarrow> 'a Robot_scheme \<Rightarrow> 'a Robot_scheme" where
  "wallHugUntilClear w maxSteps m = motor Stop (wallHugLoop w (unat maxSteps) m)"

definition avoidObstacleRight :: "world \<Rightarrow> 'a Robot_scheme \<Rightarrow> NavResult \<times> 'a Robot_scheme" where
  "avoidObstacleRight w m =
    (let m1 = delay 100 (motor Stop m);
         m2 = turn 90 SPEED_TURN m1;
         m3 = delay 800 (motor (Forward SPEED_NORMAL) m2);
         m4 = turn (- 90) SPEED_TURN m3;
         m5 = wallHugUntilClear w 30 m4;
         m6 = turn (- 90) SPEED_TURN m5;
         m7 = delay 800 (motor (Forward SPEED_NORMAL) m6);
         m8 = turn 90 SPEED_TURN m7
     in (NAV_CONTINUE, motor Stop m8))"

text \<open>
  \<open>searchForLine\<close> reads into a local \<open>SensorData\<close> that the source leaves
  uninitialised; its old contents reach only \<open>previousColor\<close>, which the search never
  looks at. \<open>local_data\<close> stands for those contents.
\<close>

definition local_data :: SensorData where
  "local_data = \<lparr>redFreq = 0, greenFreq = 0, blueFreq = 0, detectedColor = COLOR_NONE,
     previousColor = COLOR_NONE, distance = 0, obstacleDetected = False,
     leftOnLine = False, rightOnLine = False\<rparr>"

function searchLoop ::
  "world \<Rightarrow> Color \<Rightarrow> 16 word \<Rightarrow> nat \<Rightarrow> SensorData \<Rightarrow> 'a Robot_scheme \<Rightarrow> bool \<times> 'a Robot_scheme" where
  "searchLoop w targetColor maxTime startTime data m =
    (if clock m - startTime < unat maxTime then
       (let (data', m1) = readAll w data m
        in if detectedColor data' = targetColor then (True, m1)
           else
             (let m2 = (if 0 < sint (searchDirection m1)
                          then motor (TurnRight SPEED_TURN) m1
                          else motor (TurnLeft SPEED_TURN) m1);
                  m3 = motor Stop (delay 200 m2);
                  m4 = m3\<lparr>searchDirection := searchDirection m3 * (- 1)\<rparr>
              in searchLoop w targetColor maxTime startTime data' m4))
     else (False, m))"
  by pat_completeness auto
termination
  by (relation "measure (\<lambda>(w, c, maxTime, startTime, d, m). startTime + unat maxTime - clock m)")
     (auto simp: readAll_def readUltrasonic_def readDistance_def Sensors_readColor_def
        readColorRaw_def readIR_def delay_def motor_def Let_def split: prod.splits if_splits)

declare searchLoop.simps [simp del]

definition searchForLine :: "world \<Rightarrow> Color \<Rightarrow> 16 word \<Rightarrow> 'a Robot_scheme \<Rightarrow> bool \<times> 'a Robot_scheme" where
  "searchForLine w targetColor maxTime m = searchLoop w targetColor maxTime (clock m) local_data m"

definition Navigation_reset :: "'a Robot_scheme \<Rightarrow> 'a Robot_scheme" where
  "Navigation_reset m = m\<lparr>searchDirection := 1, searchCount := 0, lastStateChange := clock m\<rparr>"


section \<open>Servos (servos.cpp)\<close>

text \<open>
  The servo writes go to hardware; the class mirrors them in \<open>currentArmAngle\<close> and
  \<open>currentClampAngle\<close>, which is what is kept here, with the pauses.
\<close>

definition openClamp :: "'a Robot_scheme \<Rightarrow> 'a Robot_scheme" where
  "openClamp m = delay TIME_SERVO_MOVE (m\<lparr>currentClampAngle := SERVO_CLAMP_OPEN\<rparr>)"

definition closeClamp :: "'a Robot_scheme \<Rightarrow> 'a Robot_scheme" where
  "closeClamp m = delay TIME_SERVO_MOVE (m\<lparr>currentClampAngle := SERVO_CLAMP_CLOSED\<rparr>)"

definition armDown :: "'a Robot_scheme \<Rightarrow> 'a Robot_scheme" where
  "armDown m = delay (TIME_SERVO_MOVE + 200) (m\<lparr>currentArmAngle := SERVO_ARM_DOWN\<rparr>)"

definition armCarry :: "'a Robot_scheme \<Rightarrow> 'a Robot_scheme" where
  "armCarry m = delay TIME_SERVO_MOVE (m\<lparr>currentArmAngle := SERVO_ARM_CARRY\<rparr>)"

definition pickup :: "'a Robot_scheme \<Rightarrow> 'a Robot_scheme" where
  "pickup m =
    (let m1 = armDown m;
         m2 = delay 100 m1;
         m3 = closeClamp m2;
         m4 = delay 100 m3;
         m5 = armCarry m4
     in m5\<lparr>holding := True\<rparr>)"

definition drop_box :: "'a Robot_scheme \<Rightarrow> 'a Robot_scheme" where
  "drop_box m =
    (let m1 = armDown m;
         m2 = delay 100 m1;
         m3 = openClamp m2;
         m4 = delay 100 m3;
         m5 = armCarry m4
     in m5\<lparr>holding := False\<rparr>)"

definition isHolding :: "'a Robot_scheme \<Rightarrow> bool" where
  "isHolding m = holding m"


section \<open>Section 1 mission (section1.ino)\<close>

datatype State =
    STATE_INIT
  | STATE_FOLLOW_BLACK
  | STATE_APPROACH_BOX
  | STATE_PICKUP
  | STATE_FIND_INTERSECTION
  | STATE_SELECT_GREEN
  | STATE_FOLLOW_GREEN
  | STATE_APPROACH_BLUE
  | STATE_DROP
  | STATE_TO_REUPLOAD
  | STATE_COMPLETE

text \<open>
  The globals of the sketch, on top of the statics of the core classes. \<open>searchDir\<close>
  and \<open>searchAttempts\<close> are the function-local statics of the SELECT_GREEN handler.
  Serial output and \<open>debugPrint\<close> touch none of this and are left out.
\<close>

record Mission = Robot +
  currentState :: State
  sensors :: SensorData
  stateStartTime :: nat
  searchDir :: "8 word"
  searchAttempts :: "8 word"

definition transitionTo :: "State \<Rightarrow> Mission \<Rightarrow> Mission" where
  "transitionTo newState m =
    Navigation_reset (m\<lparr>currentState := newState, stateStartTime := clock m\<rparr>)"

text \<open>
  One call of \<open>processState\<close>. The COMPLETE handler stops the motors and then spins in
  \<open>while (true)\<close>: the call does not return, which is the value \<open>None\<close>. STATE_INIT has
  no \<open>case\<close> in the \<open>switch\<close>, so nothing happens there.
\<close>

definition processState :: "world \<Rightarrow> Mission \<Rightarrow> Mission option" where
  "processState w m =
    (case currentState m of
       STATE_INIT \<Rightarrow> Some m
     | STATE_FOLLOW_BLACK \<Rightarrow>
         (let (result, m1) = followBlackLine (sensors m) m
          in if result = NAV_OBSTACLE
                \<and> distance (sensors m1) < real_of_int (DIST_BOX_PICKUP + 10)
               then Some (transitionTo STATE_APPROACH_BOX m1)
             else Some m1)
     | STATE_APPROACH_BOX \<Rightarrow>
         (if distance (sensors m) \<le> real_of_int DIST_BOX_PICKUP
            then Some (transitionTo STATE_PICKUP (motor Stop m))
          else Some (motor (Forward SPEED_SLOW) m))
     | STATE_PICKUP \<Rightarrow>
         (let m1 = pickup m
          in if isHolding m1 then Some (transitionTo STATE_FIND_INTERSECTION m1)
             else Some m1)
     | STATE_FIND_INTERSECTION \<Rightarrow>
         (let (result, m1) = followBlackLine (sensors m) m
          in if detectedColor (sensors m1) = COLOR_GREEN
                \<or> detectedColor (sensors m1) = COLOR_RED
               then Some (transitionTo STATE_SELECT_GREEN (motor Stop m1))
             else Some m1)
     | STATE_SELECT_GREEN \<Rightarrow>
         (if detectedColor (sensors m) = COLOR_GREEN
            then Some (transitionTo STATE_FOLLOW_GREEN m)
          else if searchAttempts m < 4 then
            (let m1 = turn (word_of_int (45 * sint (searchDir m))) SPEED_TURN m;
                 (data, m2) = readAll w (sensors m1) m1;
                 m3 = m2\<lparr>sensors := data\<rparr>
             in if detectedColor (sensors m3) = COLOR_GREEN
                  then Some ((transitionTo STATE_FOLLOW_GREEN m3)
                               \<lparr>searchAttempts := 0, searchDir := - 1\<rparr>)
                else Some (m3\<lparr>searchDir := searchDir m3 * (- 1),
                                searchAttempts := searchAttempts m3 + 1\<rparr>))
          else Some ((transitionTo STATE_FOLLOW_GREEN m)\<lparr>searchAttempts := 0\<rparr>))
     | STATE_FOLLOW_GREEN \<Rightarrow>
         (let (result, m1) = followColorLine (sensors m) COLOR_GREEN m;
              m2 = (if detectedColor (sensors m1) = COLOR_BLUE
                      then transitionTo STATE_APPROACH_BLUE m1 else m1);
              m3 = (if result = NAV_LOST
                      then snd (searchForLine w COLOR_GREEN 1000 m2) else m2)
          in Some m3)
     | STATE_APPROACH_BLUE \<Rightarrow>
         (let m1 = motor (Forward SPEED_SLOW) m;
              m2 = delay 500 m1;
              m3 = motor Stop m2
          in Some (transitionTo STATE_DROP m3))
     | STATE_DROP \<Rightarrow>
         (let m1 = drop_box m
          in if \<not> isHolding m1 then Some (transitionTo STATE_TO_REUPLOAD m1)
             else Some m1)
     | STATE_TO_REUPLOAD \<Rightarrow>
         (let (result, m1) = followColorLine (sensors m) COLOR_GREEN m
          in if clock m1 - stateStartTime m1 > 3000
               then Some (transitionTo STATE_COMPLETE (motor Stop m1))
             else Some m1)
     | STATE_COMPLETE \<Rightarrow> None)"

text \<open>One pass of \<open>loop()\<close>: read all sensors into the global, dispatch, pause.\<close>

definition loop :: "world \<Rightarrow> Mission \<Rightarrow> Mission option" where
  "loop w m =
    (let (data, m1) = readAll w (sensors m) m;
         m2 = m1\<lparr>sensors := data\<rparr>
     in case processState w m2 of
          None \<Rightarrow> None
        | Some m3 \<Rightarrow> Some (delay TIME_LOOP_DELAY m3))"

text \<open>\<open>run n\<close>: the first \<open>n\<close> passes of \<open>loop()\<close>, as the Arduino runtime calls it.\<close>

fun run :: "nat \<Rightarrow> world \<Rightarrow> Mission \<Rightarrow> Mission option" where
  "run 0 w m = Some m"
| "run (Suc n) w m = (case loop w m of None \<Rightarrow> None | Some m' \<Rightarrow> run n w m')"

text \<open>
  \<open>in_state_for n w m s t\<close>: the first \<open>n\<close> passes all return, and after them the
  mission is in state \<open>s\<close> and entered its current state at least \<open>t\<close> ms ago.
\<close>

definition in_state_for :: "nat \<Rightarrow> world \<Rightarrow> Mission \<Rightarrow> State \<Rightarrow> nat \<Rightarrow> bool" where
  "in_state_for n w m s t =
    (case run n w m of
       None \<Rightarrow> False
     | Some m' \<Rightarrow> currentState m' = s \<and> t \<le> clock m' - stateStartTime m')"


text \<open>
  The state at power-on: the static initialisers of the classes and the zero-filled
  globals of the sketch. \<open>setup()\<close> (here \<open>setup_section1\<close>) initialises the servos, resets the navigation
  statics, waits and enters FOLLOW_BLACK; the pin configuration of \<open>Sensors::init\<close> and
  \<open>Motors::init\<close> has no counterpart in this state.
\<close>

definition power_on :: Mission where
  "power_on =
    \<lparr>trace = [], clock = 0, pings = 0, searchDirection = 1, searchCount = 0,
     lastStateChange = 0, holding = False, currentClampAngle = SERVO_CLAMP_OPEN,
     currentArmAngle = SERVO_ARM_DOWN, currentState = STATE_INIT,
     sensors = \<lparr>redFreq = 0, greenFreq = 0, blueFreq = 0, detectedColor = COLOR_NONE,
       previousColor = COLOR_NONE, distance = 0, obstacleDetected = False,
       leftOnLine = False, rightOnLine = False\<rparr>,
     stateStartTime = 0, searchDir = - 1, searchAttempts = 0\<rparr>"

definition Servos_init :: "'a Robot_scheme \<Rightarrow> 'a Robot_scheme" where
  "Servos_init m =
    delay TIME_SERVO_MOVE
      (m\<lparr>currentArmAngle := SERVO_ARM_DOWN, currentClampAngle := SERVO_CLAMP_OPEN,
         holding := False\<rparr>)"

definition setup_section1 :: "Mission \<Rightarrow> Mission" where
  "setup_section1 m = transitionTo STATE_FOLLOW_BLACK (delay 500 (Navigation_reset (Servos_init m)))"


section \<open>The RED/GREEN/BLUE stage as the specification words it\<close>

text \<open>
  The specification describes the last stage of the classifier as a search: take the
  channels in the order RED, GREEN, BLUE and return the first whose count is lower
  than both other counts by the margin and below the ceiling; NONE if there is none.
  \<open>spec_rgb_stage\<close> is that description, with the meaning of "lower by the margin"
  left open: \<open>lower_by_at_least\<close> reads it as a difference of at least the margin,
  \<open>lower_by_more_than\<close> as a difference of more than the margin.
\<close>

definition lower_by_at_least :: "int \<Rightarrow> int \<Rightarrow> bool" where
  "lower_by_at_least x y = (y - x \<ge> COLOR_MARGIN)"

definition lower_by_more_than :: "int \<Rightarrow> int \<Rightarrow> bool" where
  "lower_by_more_than x y = (y - x > COLOR_MARGIN)"

definition spec_rgb_stage ::
  "(int \<Rightarrow> int \<Rightarrow> bool) \<Rightarrow> 16 word \<Rightarrow> 16 word \<Rightarrow> 16 word \<Rightarrow> Color" where
  "spec_rgb_stage lower r g b =
    (case find (\<lambda>(c, x, y, z). lower x y \<and> lower x z \<and> x < COLOR_FREQ_MAX)
            [(COLOR_RED, uint r, uint g, uint b),
             (COLOR_GREEN, uint g, uint r, uint b),
             (COLOR_BLUE, uint b, uint r, uint g)] of
       None \<Rightarrow> COLOR_NONE
     | Some (c, x, y, z) \<Rightarrow> c)"



section \<open>Consecutive invocations of the ring-centre search\<close>

text \<open>
  Section 2 calls \<open>navigateToCenter\<close> once per tick on the snapshot of that tick and,
  while the result is CONTINUE, nothing else touches the navigation statics.
  \<open>centerTicks\<close> is such a run of calls, one per snapshot of the list. \<open>sameRing\<close>
  says that a snapshot shows an unchanged, recognised colour, and \<open>pivotOf\<close> names the
  pivot that belongs to a search direction.
\<close>

fun centerTicks :: "SensorData list \<Rightarrow> 'a Robot_scheme \<Rightarrow> 'a Robot_scheme" where
  "centerTicks [] m = m"
| "centerTicks (d # ds) m = centerTicks ds (snd (navigateToCenter d m))"

definition sameRing :: "SensorData \<Rightarrow> bool" where
  "sameRing d = (detectedColor d = previousColor d \<and> detectedColor d \<noteq> COLOR_NONE)"

definition pivotOf :: "8 word \<Rightarrow> MotorCmd" where
  "pivotOf dir = (if 0 < sint dir then TurnRight SPEED_TURN else TurnLeft SPEED_TURN)"


section \<open>Concrete surroundings\<close>

text \<open>
  \<open>grey_sample\<close>: no echo, three equal colour counts of 100 (no colour recognised), both
  reflectance sensors off the line. \<open>green_box_sample\<close>: an echo of 235 us (a box at
  about 4 cm), a green surface, both reflectance sensors on the line. \<open>grey_world\<close>
  shows the first for ever; \<open>course_world\<close> shows the second for three seconds and the
  first from then on. \<open>wall_sample\<close> is an echo of 1000 us, a wall at 17 cm.
  \<open>box_world\<close> shows the green surface and the box for ever; \<open>blue_sample\<close> is a blue
  surface with no echo, and \<open>blue_world\<close> shows it for ever.
\<close>

definition grey_sample :: Sample where
  "grey_sample = \<lparr>echoPulse = 0, redPulse = 100, greenPulse = 100, bluePulse = 100,
     irLeft = HIGH, irRight = HIGH\<rparr>"

definition green_box_sample :: Sample where
  "green_box_sample = \<lparr>echoPulse = 235, redPulse = 100, greenPulse = 40, bluePulse = 100,
     irLeft = LOW, irRight = LOW\<rparr>"

definition wall_sample :: Sample where
  "wall_sample = \<lparr>echoPulse = 1000, redPulse = 100, greenPulse = 100, bluePulse = 100,
     irLeft = HIGH, irRight = HIGH\<rparr>"

definition grey_world :: world where
  "grey_world t = grey_sample"

definition course_world :: world where
  "course_world t = (if t < 3000 then green_box_sample else grey_sample)"

definition wall_world :: world where
  "wall_world t = wall_sample"

definition blue_sample :: Sample where
  "blue_sample = \<lparr>echoPulse = 0, redPulse = 100, greenPulse = 100, bluePulse = 40,
     irLeft = HIGH, irRight = HIGH\<rparr>"

definition box_world :: world where
  "box_world t = green_box_sample"

definition blue_world :: world where
  "blue_world t = blue_sample"


section \<open>Observers of the primitive steps\<close>

lemma trace_motor [simp]: "trace (motor c m) = trace m @ [c]"
  and pings_motor [simp]: "pings (motor c m) = pings m"
  and clock_motor [simp]: "clock (motor c m) = clock m"
  by (simp_all add: motor_def)

lemma trace_delay [simp]: "trace (delay n m) = trace m"
  and pings_delay [simp]: "pings (delay n m) = pings m"
  and clock_delay [simp]: "clock (delay n m) = clock m + n"
  by (simp_all add: delay_def)

lemma trace_readDistance [simp]: "trace (snd (readDistance w m)) = trace m"
  and pings_readDistance [simp]: "pings (snd (readDistance w m)) = pings m + 1"
  and clock_readDistance [simp]: "clock (snd (readDistance w m)) = clock m"
  by (simp_all add: readDistance_def Let_def)

lemma trace_turn [simp]:
  "trace (turn d s m) = trace m @ [if 0 < sint d then TurnRight s else TurnLeft s, Stop]"
  and pings_turn [simp]: "pings (turn d s m) = pings m"
  by (simp_all add: turn_def Let_def)


section \<open>Line following\<close>

text \<open>
  C1. With the left sensor on the line, the right one off it and no obstacle,
  \<open>followBlackLine\<close> issues exactly one command, \<open>curveLeft\<close> at normal speed (so no
  \<open>curveRight\<close>), whatever the other fields of the snapshot hold. With
  \<open>obstacleDetected\<close> set it issues exactly \<open>stop\<close> and returns OBSTACLE, whatever the
  line sensors say.
\<close>

theorem followBlackLine_left_only_and_obstacle:
  "(leftOnLine data \<and> \<not> rightOnLine data \<and> \<not> obstacleDetected data \<longrightarrow>
      trace (snd (followBlackLine data m)) = trace m @ [CurveLeft SPEED_NORMAL]
      \<and> fst (followBlackLine data m) = NAV_CONTINUE)
   \<and> (obstacleDetected data \<longrightarrow>
      trace (snd (followBlackLine data m)) = trace m @ [Stop]
      \<and> fst (followBlackLine data m) = NAV_OBSTACLE)"
  by (simp add: followBlackLine_def)

theorem followBlackLine_left_only_and_obstacle_witness:
  "leftOnLine ((sensors power_on)\<lparr>leftOnLine := True\<rparr>)
   \<and> \<not> rightOnLine ((sensors power_on)\<lparr>leftOnLine := True\<rparr>)
   \<and> \<not> obstacleDetected ((sensors power_on)\<lparr>leftOnLine := True\<rparr>)
   \<and> trace (snd (followBlackLine ((sensors power_on)\<lparr>leftOnLine := True\<rparr>) power_on))
       = [CurveLeft SPEED_NORMAL]
   \<and> obstacleDetected ((sensors power_on)\<lparr>rightOnLine := True, obstacleDetected := True\<rparr>)
   \<and> trace (snd (followBlackLine
         ((sensors power_on)\<lparr>rightOnLine := True, obstacleDetected := True\<rparr>) power_on))
       = [Stop]
   \<and> fst (followBlackLine
         ((sensors power_on)\<lparr>rightOnLine := True, obstacleDetected := True\<rparr>) power_on)
       = NAV_OBSTACLE"
  using followBlackLine_left_only_and_obstacle
          [of "(sensors power_on)\<lparr>leftOnLine := True\<rparr>" power_on]
        followBlackLine_left_only_and_obstacle
          [of "(sensors power_on)\<lparr>rightOnLine := True, obstacleDetected := True\<rparr>" power_on]
  by (simp add: power_on_def)

text \<open>
  C3. Without an obstacle, \<open>followColorLine\<close> with target \<open>T\<close> takes the cases in the
  order of the source. Detected colour equal to \<open>T\<close>: forward at normal speed, counter
  reset to 0, CONTINUE. A recognised colour other than \<open>T\<close>: stop, TARGET_FOUND.
  Colour NONE (and \<open>T\<close> a colour, so that the first case does not apply): forward at
  slow speed, counter incremented, LOST exactly when the incremented counter exceeds 10
  and CONTINUE otherwise. The counter is a \<open>uint8_t\<close>; the increment is the one of the
  machine.
\<close>

theorem followColorLine_cases:
  assumes "\<not> obstacleDetected data"
  shows "(detectedColor data = T \<longrightarrow>
            fst (followColorLine data T m) = NAV_CONTINUE
            \<and> trace (snd (followColorLine data T m)) = trace m @ [Forward SPEED_NORMAL]
            \<and> searchCount (snd (followColorLine data T m)) = 0)
       \<and> (detectedColor data \<noteq> COLOR_NONE \<and> detectedColor data \<noteq> T \<longrightarrow>
            fst (followColorLine data T m) = NAV_TARGET_FOUND
            \<and> trace (snd (followColorLine data T m)) = trace m @ [Stop])
       \<and> (detectedColor data = COLOR_NONE \<and> T \<noteq> COLOR_NONE \<longrightarrow>
            trace (snd (followColorLine data T m)) = trace m @ [Forward SPEED_SLOW]
            \<and> searchCount (snd (followColorLine data T m)) = searchCount m + 1
            \<and> (fst (followColorLine data T m) = NAV_LOST) = (searchCount m + 1 > 10)
            \<and> (fst (followColorLine data T m) = NAV_CONTINUE) = (\<not> searchCount m + 1 > 10))"
  using assms by (auto simp: followColorLine_def motor_def Let_def)

theorem followColorLine_cases_witness:
  "\<not> obstacleDetected (sensors power_on)
   \<and> detectedColor (sensors power_on) = COLOR_NONE
   \<and> trace (snd (followColorLine (sensors power_on) COLOR_GREEN power_on)) = [Forward SPEED_SLOW]
   \<and> searchCount (snd (followColorLine (sensors power_on) COLOR_GREEN power_on)) = 1
   \<and> fst (followColorLine (sensors power_on) COLOR_GREEN power_on) = NAV_CONTINUE
   \<and> fst (followColorLine (sensors power_on) COLOR_GREEN (power_on\<lparr>searchCount := 10\<rparr>)) = NAV_LOST
   \<and> fst (followColorLine ((sensors power_on)\<lparr>detectedColor := COLOR_GREEN\<rparr>) COLOR_GREEN
            (power_on\<lparr>searchCount := 10\<rparr>)) = NAV_CONTINUE
   \<and> searchCount (snd (followColorLine ((sensors power_on)\<lparr>detectedColor := COLOR_GREEN\<rparr>)
            COLOR_GREEN (power_on\<lparr>searchCount := 10\<rparr>))) = 0
   \<and> fst (followColorLine ((sensors power_on)\<lparr>detectedColor := COLOR_BLUE\<rparr>) COLOR_GREEN
            power_on) = NAV_TARGET_FOUND"
  using followColorLine_cases [of "sensors power_on" COLOR_GREEN power_on]
        followColorLine_cases [of "sensors power_on" COLOR_GREEN "power_on\<lparr>searchCount := 10\<rparr>"]
        followColorLine_cases [of "(sensors power_on)\<lparr>detectedColor := COLOR_GREEN\<rparr>"
           COLOR_GREEN "power_on\<lparr>searchCount := 10\<rparr>"]
        followColorLine_cases [of "(sensors power_on)\<lparr>detectedColor := COLOR_BLUE\<rparr>"
           COLOR_GREEN power_on]
  by (simp add: power_on_def)


section \<open>Colour classification\<close>

text \<open>
  C7. Whenever all three counts exceed COLOR_FREQ_BLACK (200), the classifier of the
  core and the one of the standalone obstacle sketch both answer BLACK, however far
  apart the channels are. The all-timeout reading (999, 999, 999), which is what three
  timed-out pulse reads become, is BLACK.
\<close>

theorem black_above_threshold:
  "(uint r > COLOR_FREQ_BLACK \<and> uint g > COLOR_FREQ_BLACK \<and> uint b > COLOR_FREQ_BLACK \<longrightarrow>
      detectColor r g b = COLOR_BLACK \<and> obstacle_classify r g b = COLOR_BLACK)
   \<and> COLOR_FREQ_BLACK = 200
   \<and> detectColor 999 999 999 = COLOR_BLACK
   \<and> obstacle_classify 999 999 999 = COLOR_BLACK
   \<and> obstacle_readColor 0 0 0 = COLOR_BLACK"
  by (simp add: detectColor_def obstacle_classify_def obstacle_readColor_def COLOR_FREQ_BLACK_def)

theorem black_above_threshold_witness:
  "uint (201 :: 16 word) > COLOR_FREQ_BLACK \<and> uint (65535 :: 16 word) > COLOR_FREQ_BLACK
   \<and> uint (250 :: 16 word) > COLOR_FREQ_BLACK
   \<and> detectColor 201 65535 250 = COLOR_BLACK \<and> obstacle_classify 201 65535 250 = COLOR_BLACK"
  using black_above_threshold [of 201 65535 250] by (simp add: COLOR_FREQ_BLACK_def)

text \<open>
  C8, as stated: a channel qualifies when it is lower than both others by at least the
  margin. At (50, 70, 70) red is lower than green and blue by exactly 20 and below 150,
  so the stated rule answers RED; \<open>detectColor\<close> answers NONE, since it asks for
  \<open>r < g - 20\<close>.
\<close>

theorem rgb_stage_margin_counterexample:
  "detectColor 50 70 70 = COLOR_NONE
   \<and> spec_rgb_stage lower_by_at_least 50 70 70 = COLOR_RED"
  by (simp add: detectColor_def spec_rgb_stage_def lower_by_at_least_def constants)

text \<open>
  C8, amended: for every input that \<open>detectColor\<close> classifies neither BLACK nor WHITE,
  the result is the first channel in the order RED, GREEN, BLUE whose count is lower
  than both other counts by more than the margin (20) and below the ceiling (150), and
  NONE when there is none. (50, 150, 150) is RED.
\<close>

theorem rgb_stage_first_dominant:
  "(detectColor r g b \<noteq> COLOR_BLACK \<and> detectColor r g b \<noteq> COLOR_WHITE \<longrightarrow>
     detectColor r g b = spec_rgb_stage lower_by_more_than r g b)
   \<and> COLOR_MARGIN = 20 \<and> COLOR_FREQ_MAX = 150
   \<and> detectColor 50 150 150 = COLOR_RED"
  by (simp add: detectColor_def spec_rgb_stage_def lower_by_more_than_def constants)

theorem rgb_stage_first_dominant_witness:
  "detectColor 100 40 100 \<noteq> COLOR_BLACK \<and> detectColor 100 40 100 \<noteq> COLOR_WHITE
   \<and> detectColor 100 40 100 = spec_rgb_stage lower_by_more_than 100 40 100
   \<and> detectColor 100 40 100 = COLOR_GREEN"
  using rgb_stage_first_dominant [of 100 40 100]
  by (simp add: detectColor_def constants)


section \<open>Gripper\<close>

text \<open>
  C10. The holding flag is commanded: after \<open>pickup\<close> it is set and after \<open>drop\<close> it is
  clear, from any state; neither function reads a sensor (neither takes the
  surroundings). So in PICKUP the guard on \<open>isHolding\<close> succeeds in the same call and
  the handler always moves on to FIND_INTERSECTION.
\<close>

theorem holding_is_commanded:
  "isHolding (pickup m) \<and> \<not> isHolding (drop_box m)
   \<and> (currentState M = STATE_PICKUP \<longrightarrow>
        (\<exists>M'. processState w M = Some M' \<and> currentState M' = STATE_FIND_INTERSECTION
               \<and> isHolding M'))"
  by (simp add: isHolding_def pickup_def drop_box_def processState_def transitionTo_def
        Navigation_reset_def armDown_def armCarry_def closeClamp_def openClamp_def delay_def
        Let_def)

theorem holding_is_commanded_witness:
  "currentState (power_on\<lparr>currentState := STATE_PICKUP\<rparr>) = STATE_PICKUP
   \<and> \<not> isHolding (power_on\<lparr>currentState := STATE_PICKUP\<rparr>)
   \<and> (\<exists>M'. processState grey_world (power_on\<lparr>currentState := STATE_PICKUP\<rparr>) = Some M'
            \<and> currentState M' = STATE_FIND_INTERSECTION \<and> isHolding M')"
  using holding_is_commanded [of power_on "power_on\<lparr>currentState := STATE_PICKUP\<rparr>" grey_world]
  by (simp add: power_on_def isHolding_def)


section \<open>Ring-centre search\<close>

lemma count_step:
  assumes "unat (c :: 8 word) < 5"
  shows "\<not> 5 < c + 1" and "unat (c + 1) = unat c + 1"
proof -
  have "unat (c + 1) = (unat c + 1) mod 256"
    by (simp add: unat_word_ariths)
  with assms show u: "unat (c + 1) = unat c + 1" by simp
  with assms show "\<not> 5 < c + 1" by (simp add: word_less_nat_alt)
qed

lemma nav_quiet:
  assumes "sameRing d" "unat (searchCount m) < 5"
  shows "trace (snd (navigateToCenter d m)) = trace m @ [Forward SPEED_SLOW]"
    and "searchCount (snd (navigateToCenter d m)) = searchCount m + 1"
    and "searchDirection (snd (navigateToCenter d m)) = searchDirection m"
    and "fst (navigateToCenter d m) = NAV_CONTINUE"
  using assms count_step(1) [of "searchCount m"]
  by (simp_all add: navigateToCenter_def sameRing_def motor_def delay_def Let_def)

lemma nav_trigger:
  assumes "sameRing d" "searchCount m = 5"
  shows "trace (snd (navigateToCenter d m)) =
           trace m @ [Forward SPEED_SLOW, pivotOf (searchDirection m), Stop]"
    and "searchCount (snd (navigateToCenter d m)) = 0"
    and "searchDirection (snd (navigateToCenter d m)) = - searchDirection m"
    and "fst (navigateToCenter d m) = NAV_CONTINUE"
  using assms
  by (simp_all add: navigateToCenter_def sameRing_def motor_def delay_def Let_def pivotOf_def)

lemma centerTicks_append: "centerTicks (xs @ ys) m = centerTicks ys (centerTicks xs m)"
  by (induction xs arbitrary: m) simp_all

lemma quiet_run:
  "\<forall>d\<in>set ds. sameRing d \<Longrightarrow> unat (searchCount m) + length ds \<le> 5 \<Longrightarrow>
     trace (centerTicks ds m) = trace m @ replicate (length ds) (Forward SPEED_SLOW)
     \<and> unat (searchCount (centerTicks ds m)) = unat (searchCount m) + length ds
     \<and> searchDirection (centerTicks ds m) = searchDirection m"
proof (induction ds arbitrary: m)
  case Nil
  then show ?case by simp
next
  case (Cons d ds)
  have q: "sameRing d" and lt: "unat (searchCount m) < 5"
    using Cons.prems by auto
  let ?m' = "snd (navigateToCenter d m)"
  have c: "unat (searchCount ?m') = unat (searchCount m) + 1"
    using nav_quiet(2) [OF q lt] count_step(2) [OF lt] by simp
  have "trace (centerTicks ds ?m') = trace ?m' @ replicate (length ds) (Forward SPEED_SLOW)
     \<and> unat (searchCount (centerTicks ds ?m')) = unat (searchCount ?m') + length ds
     \<and> searchDirection (centerTicks ds ?m') = searchDirection ?m'"
    using Cons.prems c by (intro Cons.IH) auto
  then show ?case
    using nav_quiet(1,3) [OF q lt] c by (simp add: replicate_app_Cons_same)
qed

lemma six_ticks:
  assumes "searchCount m = 0" "length ds = 6" "\<forall>d\<in>set ds. sameRing d"
  shows "trace (centerTicks ds m) =
           trace m @ replicate 6 (Forward SPEED_SLOW) @ [pivotOf (searchDirection m), Stop]
         \<and> searchDirection (centerTicks ds m) = - searchDirection m
         \<and> searchCount (centerTicks ds m) = 0"
proof -
  have ne: "ds \<noteq> []" using assms(2) by auto
  define xs where "xs = butlast ds"
  define d where "d = last ds"
  have ds: "ds = xs @ [d]" and len: "length xs = 5"
    using ne assms(2) by (simp_all add: xs_def d_def)
  have all: "\<forall>x\<in>set xs. sameRing x" and d: "sameRing d"
    using assms(3) ne by (auto simp: xs_def d_def dest: in_set_butlastD)
  let ?m5 = "centerTicks xs m"
  have five: "trace ?m5 = trace m @ replicate 5 (Forward SPEED_SLOW)"
    "unat (searchCount ?m5) = 5" "searchDirection ?m5 = searchDirection m"
    using quiet_run [OF all, of m] assms(1) len by simp_all
  have "searchCount ?m5 = of_nat (unat (searchCount ?m5))" by simp
  then have cnt: "searchCount ?m5 = 5"
    unfolding five(2) by simp
  have "replicate 6 (Forward SPEED_SLOW) = replicate 5 (Forward SPEED_SLOW) @ [Forward SPEED_SLOW]"
    by (simp add: eval_nat_numeral replicate_app_Cons_same)
  then show ?thesis
    unfolding ds centerTicks_append
    using nav_trigger [OF d cnt] five
    by simp
qed

text \<open>
  \<open>searchDirection\<close> starts at 1, is set to 1 by \<open>reset\<close> and is otherwise only
  negated, so it is always 1 or -1.
\<close>

lemma searchDirection_unit:
  "searchDirection (Navigation_reset m) = 1"
  "searchDirection m = 1 \<or> searchDirection m = - 1 \<Longrightarrow>
     searchDirection (snd (navigateToCenter d m)) = 1
     \<or> searchDirection (snd (navigateToCenter d m)) = - 1"
  "searchDirection m = 1 \<or> searchDirection m = - 1 \<Longrightarrow>
     searchDirection (snd (followColorLine d T m)) = 1
     \<or> searchDirection (snd (followColorLine d T m)) = - 1"
  by (auto simp: Navigation_reset_def navigateToCenter_def followColorLine_def motor_def
        delay_def Let_def)

lemma pivot_flips:
  "dir = 1 \<or> dir = - 1 \<Longrightarrow> pivotOf (- dir) \<noteq> pivotOf dir \<and> (- dir = 1 \<or> - dir = - 1)"
  by (auto simp: pivotOf_def)

text \<open>
  C2. Start with the search counter at 0 (as after a reset, a ring crossing or a
  pivot) and call \<open>navigateToCenter\<close> on six snapshots in a row, each showing an
  unchanged, recognised colour. The first five calls issue the slow forward command
  and nothing else; the sixth issues forward, then exactly one pivot (right when
  \<open>searchDirection > 0\<close>, left otherwise), then stop, negates \<open>searchDirection\<close> and
  leaves the counter at 0. With \<open>searchDirection\<close> one of its two values 1 and -1, six
  more such calls pivot the other way.
\<close>

theorem ring_search_pivot:
  assumes "searchCount m = 0"
    and "length ds = 6" and "\<forall>d\<in>set ds. sameRing d"
  shows "(\<forall>k<6. trace (centerTicks (take k ds) m) = trace m @ replicate k (Forward SPEED_SLOW))
       \<and> trace (centerTicks ds m) =
           trace m @ replicate 6 (Forward SPEED_SLOW) @ [pivotOf (searchDirection m), Stop]
       \<and> searchDirection (centerTicks ds m) = - searchDirection m
       \<and> searchCount (centerTicks ds m) = 0
       \<and> (length ds' = 6 \<and> (\<forall>d\<in>set ds'. sameRing d)
            \<and> (searchDirection m = 1 \<or> searchDirection m = - 1) \<longrightarrow>
          trace (centerTicks (ds @ ds') m) =
            trace m @ replicate 6 (Forward SPEED_SLOW) @ [pivotOf (searchDirection m), Stop]
              @ replicate 6 (Forward SPEED_SLOW) @ [pivotOf (- searchDirection m), Stop]
          \<and> pivotOf (- searchDirection m) \<noteq> pivotOf (searchDirection m)
          \<and> searchDirection (centerTicks (ds @ ds') m) = searchDirection m)"
proof -
  have first: "trace (centerTicks ds m) =
           trace m @ replicate 6 (Forward SPEED_SLOW) @ [pivotOf (searchDirection m), Stop]"
    "searchDirection (centerTicks ds m) = - searchDirection m"
    "searchCount (centerTicks ds m) = 0"
    using six_ticks [OF assms] by simp_all
  have early: "\<forall>k<6. trace (centerTicks (take k ds) m) = trace m @ replicate k (Forward SPEED_SLOW)"
  proof (intro allI impI)
    fix k :: nat
    assume k: "k < 6"
    have "\<forall>d\<in>set (take k ds). sameRing d"
      using assms(3) by (auto dest: in_set_takeD)
    moreover have "unat (searchCount m) + length (take k ds) \<le> 5"
      using assms(1,2) k by simp
    ultimately show "trace (centerTicks (take k ds) m) = trace m @ replicate k (Forward SPEED_SLOW)"
      using quiet_run [of "take k ds" m] assms(2) k by simp
  qed
  have second: "trace (centerTicks (ds @ ds') m) =
            trace m @ replicate 6 (Forward SPEED_SLOW) @ [pivotOf (searchDirection m), Stop]
              @ replicate 6 (Forward SPEED_SLOW) @ [pivotOf (- searchDirection m), Stop]
          \<and> pivotOf (- searchDirection m) \<noteq> pivotOf (searchDirection m)
          \<and> searchDirection (centerTicks (ds @ ds') m) = searchDirection m"
    if h: "length ds' = 6" "\<forall>d\<in>set ds'. sameRing d"
      "searchDirection m = 1 \<or> searchDirection m = - 1"
  proof -
    have "trace (centerTicks ds' (centerTicks ds m)) =
           trace (centerTicks ds m) @ replicate 6 (Forward SPEED_SLOW)
             @ [pivotOf (searchDirection (centerTicks ds m)), Stop]
         \<and> searchDirection (centerTicks ds' (centerTicks ds m))
             = - searchDirection (centerTicks ds m)
         \<and> searchCount (centerTicks ds' (centerTicks ds m)) = 0"
      using six_ticks [OF first(3) h(1,2)] .
    then show ?thesis
      using first pivot_flips [OF h(3)] by (simp add: centerTicks_append)
  qed
  show ?thesis
    using first early second by blast
qed

theorem ring_search_pivot_witness:
  "searchCount power_on = 0
   \<and> length (replicate 6 ((sensors power_on)\<lparr>detectedColor := COLOR_RED,
                                               previousColor := COLOR_RED\<rparr>)) = 6
   \<and> sameRing ((sensors power_on)\<lparr>detectedColor := COLOR_RED, previousColor := COLOR_RED\<rparr>)
   \<and> searchDirection power_on = 1
   \<and> trace (centerTicks (replicate 6 ((sensors power_on)\<lparr>detectedColor := COLOR_RED,
                                          previousColor := COLOR_RED\<rparr>)) power_on) =
       replicate 6 (Forward SPEED_SLOW) @ [TurnRight SPEED_TURN, Stop]
   \<and> trace (centerTicks (replicate 6 ((sensors power_on)\<lparr>detectedColor := COLOR_RED,
                                          previousColor := COLOR_RED\<rparr>)
                          @ replicate 6 ((sensors power_on)\<lparr>detectedColor := COLOR_RED,
                                          previousColor := COLOR_RED\<rparr>)) power_on) =
       replicate 6 (Forward SPEED_SLOW) @ [TurnRight SPEED_TURN, Stop]
         @ replicate 6 (Forward SPEED_SLOW) @ [TurnLeft SPEED_TURN, Stop]"
  using ring_search_pivot
          [of power_on
              "replicate 6 ((sensors power_on)\<lparr>detectedColor := COLOR_RED,
                                                 previousColor := COLOR_RED\<rparr>)"
              "replicate 6 ((sensors power_on)\<lparr>detectedColor := COLOR_RED,
                                                 previousColor := COLOR_RED\<rparr>)"]
  by (simp add: power_on_def sameRing_def pivotOf_def)


section \<open>Ultrasonic ranging\<close>

lemma echo_not_999:
  assumes "d \<noteq> (0 :: 32 word)"
  shows "real (unat d) * ULTRA_SPEED_CM / 2 \<noteq> 999" and "0 < real (unat d) * ULTRA_SPEED_CM / 2"
proof -
  show "real (unat d) * ULTRA_SPEED_CM / 2 \<noteq> 999"
  proof
    assume "real (unat d) * ULTRA_SPEED_CM / 2 = 999"
    then have "real (unat d * 17) = real 999000" by (simp add: ULTRA_SPEED_CM_def)
    then have "unat d * 17 = 999000" by (simp only: of_nat_eq_iff)
    then show False by presburger
  qed
  have "unat d \<noteq> 0" using assms by (simp add: unat_eq_0)
  then have "0 < real (unat d)" by (simp only: of_nat_0_less_iff)
  from mult_pos_pos [OF this, of "0.017"]
  show "0 < real (unat d) * ULTRA_SPEED_CM / 2" by (simp add: ULTRA_SPEED_CM_def)
qed

text \<open>
  C4. After \<open>readUltrasonic\<close>, and so after every \<open>readAll\<close>, the flag
  \<open>obstacleDetected\<close> is true exactly when the stored distance is above 0 and below
  DIST_OBSTACLE (15). \<open>readDistance\<close> yields 999 exactly when the echo pulse width is 0,
  and with that reading the flag is false.
\<close>

theorem obstacle_from_distance:
  "(obstacleDetected (fst (readUltrasonic w data m)) =
      (0 < distance (fst (readUltrasonic w data m))
       \<and> distance (fst (readUltrasonic w data m)) < real_of_int DIST_OBSTACLE))
   \<and> (obstacleDetected (fst (readAll w data m)) =
      (0 < distance (fst (readAll w data m))
       \<and> distance (fst (readAll w data m)) < real_of_int DIST_OBSTACLE))
   \<and> DIST_OBSTACLE = 15
   \<and> (fst (readDistance w m) = 999) = (echoPulse (w (clock m)) = 0)
   \<and> distance (fst (readUltrasonic w data m)) = fst (readDistance w m)
   \<and> (fst (readDistance w m) = 999 \<longrightarrow> \<not> obstacleDetected (fst (readUltrasonic w data m)))"
  using echo_not_999 [of "echoPulse (w (clock m))"]
  by (auto simp: readUltrasonic_def readAll_def Sensors_readColor_def readDistance_def Let_def
        DIST_OBSTACLE_def split: prod.splits)

theorem obstacle_from_distance_witness:
  "fst (readDistance grey_world power_on) = 999
   \<and> \<not> obstacleDetected (fst (readUltrasonic grey_world (sensors power_on) power_on))
   \<and> echoPulse (grey_world (clock power_on)) = 0
   \<and> fst (readDistance course_world power_on) = 3.995
   \<and> obstacleDetected (fst (readUltrasonic course_world (sensors power_on) power_on))"
  using obstacle_from_distance [of grey_world "sensors power_on" power_on]
        obstacle_from_distance [of course_world "sensors power_on" power_on]
  by (simp add: readDistance_def grey_world_def grey_sample_def course_world_def
        green_box_sample_def power_on_def ULTRA_SPEED_CM_def Let_def)


section \<open>Wall hugging and obstacle avoidance\<close>

lemma wallHugLoop_shape:
  "\<exists>cs. trace (wallHugLoop w k m) = trace m @ cs \<and> length cs \<le> k
       \<and> set cs \<subseteq> {CurveRight SPEED_NORMAL, Forward SPEED_NORMAL}
       \<and> pings (wallHugLoop w k m) \<le> pings m + k"
proof (induction k arbitrary: m)
  case 0
  show ?case by simp
next
  case (Suc k)
  obtain d m1 where rd: "readDistance w m = (d, m1)" by (cases "readDistance w m")
  have m1: "trace m1 = trace m" "pings m1 = pings m + 1"
    using trace_readDistance [of w m] pings_readDistance [of w m] rd by simp_all
  consider (close) "d < real_of_int (DIST_WALL_HUG - 3)"
    | (good) "\<not> d < real_of_int (DIST_WALL_HUG - 3)" "d < real_of_int (DIST_WALL_HUG + 5) \<and> d > 0"
    | (lost) "\<not> d < real_of_int (DIST_WALL_HUG - 3)" "\<not> (d < real_of_int (DIST_WALL_HUG + 5) \<and> d > 0)"
        "d > real_of_int (DIST_WALL_HUG + 10) \<or> d \<ge> 999"
    | (band) "\<not> d < real_of_int (DIST_WALL_HUG - 3)" "\<not> (d < real_of_int (DIST_WALL_HUG + 5) \<and> d > 0)"
        "\<not> (d > real_of_int (DIST_WALL_HUG + 10) \<or> d \<ge> 999)"
    by blast
  then show ?case
  proof cases
    case close
    let ?m = "delay 50 (motor (CurveRight SPEED_NORMAL) m1)"
    from Suc.IH [of ?m] obtain cs where
      "trace (wallHugLoop w k ?m) = trace ?m @ cs" "length cs \<le> k"
      "set cs \<subseteq> {CurveRight SPEED_NORMAL, Forward SPEED_NORMAL}"
      "pings (wallHugLoop w k ?m) \<le> pings ?m + k" by blast
    then show ?thesis using close rd m1
      by (intro exI [of _ "CurveRight SPEED_NORMAL # cs"]) simp
  next
    case good
    let ?m = "delay 50 (motor (Forward SPEED_NORMAL) m1)"
    from Suc.IH [of ?m] obtain cs where
      "trace (wallHugLoop w k ?m) = trace ?m @ cs" "length cs \<le> k"
      "set cs \<subseteq> {CurveRight SPEED_NORMAL, Forward SPEED_NORMAL}"
      "pings (wallHugLoop w k ?m) \<le> pings ?m + k" by blast
    then show ?thesis using good rd m1
      by (intro exI [of _ "Forward SPEED_NORMAL # cs"]) simp
  next
    case lost
    then show ?thesis using rd m1
      by (intro exI [of _ "[]"]) auto
  next
    case band
    let ?m = "delay 50 m1"
    from Suc.IH [of ?m] obtain cs where
      "trace (wallHugLoop w k ?m) = trace ?m @ cs" "length cs \<le> k"
      "set cs \<subseteq> {CurveRight SPEED_NORMAL, Forward SPEED_NORMAL}"
      "pings (wallHugLoop w k ?m) \<le> pings ?m + k" by blast
    then show ?thesis using band rd m1
      by (intro exI [of _ cs]) auto
  qed
qed

text \<open>
  C5. Every call of \<open>avoidObstacleRight\<close> issues, in this order: stop; the timed turn to
  the right (pivot right, then its settling stop); forward; the timed turn to the left
  (pivot left, stop); the commands of the wall-hug loop, at most 30 of them, each a
  curve away or a forward, followed by the stop that ends the wall hug; the timed turn
  to the left; forward; the timed turn to the right; stop. With the stops taken out,
  what is left is pivot right, forward, pivot left, the wall-hug commands, pivot left,
  forward, pivot right. The first and the last command are stop, the loop takes at most
  30 distance readings, and the result is CONTINUE.
\<close>

theorem avoidObstacleRight_sequence:
  "\<exists>hug. trace (snd (avoidObstacleRight w m)) =
       trace m @ [Stop, TurnRight SPEED_TURN, Stop, Forward SPEED_NORMAL, TurnLeft SPEED_TURN, Stop]
         @ hug
         @ [Stop, TurnLeft SPEED_TURN, Stop, Forward SPEED_NORMAL, TurnRight SPEED_TURN, Stop, Stop]
     \<and> removeAll Stop (drop (length (trace m)) (trace (snd (avoidObstacleRight w m)))) =
         [TurnRight SPEED_TURN, Forward SPEED_NORMAL, TurnLeft SPEED_TURN]
           @ hug
           @ [TurnLeft SPEED_TURN, Forward SPEED_NORMAL, TurnRight SPEED_TURN]
     \<and> length hug \<le> 30
     \<and> set hug \<subseteq> {CurveRight SPEED_NORMAL, Forward SPEED_NORMAL}
     \<and> pings (snd (avoidObstacleRight w m)) \<le> pings m + 30
     \<and> hd (drop (length (trace m)) (trace (snd (avoidObstacleRight w m)))) = Stop
     \<and> last (trace (snd (avoidObstacleRight w m))) = Stop
     \<and> fst (avoidObstacleRight w m) = NAV_CONTINUE"
proof -
  let ?m4 = "turn (- 90) SPEED_TURN (delay 800 (motor (Forward SPEED_NORMAL)
               (turn 90 SPEED_TURN (delay 100 (motor Stop m)))))"
  obtain cs where cs: "trace (wallHugLoop w 30 ?m4) = trace ?m4 @ cs" "length cs \<le> 30"
      "set cs \<subseteq> {CurveRight SPEED_NORMAL, Forward SPEED_NORMAL}"
      "pings (wallHugLoop w 30 ?m4) \<le> pings ?m4 + 30"
    using wallHugLoop_shape [of w 30 ?m4] by blast
  have "Stop \<notin> set cs" using cs(3) by auto
  then have keep: "removeAll Stop cs = cs" by simp
  show ?thesis
    using cs keep
    by (intro exI [of _ cs]) (simp add: avoidObstacleRight_def wallHugUntilClear_def Let_def)
qed

text \<open>
  C9, as stated: every reading is too close (curve away), within tolerance (drive
  straight) or too far (leave the loop). A wall at 17 cm is none of these for
  \<open>wallHugUntilClear\<close>: with a budget of 3 all three readings are taken, so the loop was
  not left early, and the only command issued is the final stop.
\<close>

theorem wallHug_three_zones_counterexample:
  "fst (readDistance wall_world power_on) = 17
   \<and> trace (wallHugUntilClear wall_world 3 power_on) = [Stop]
   \<and> pings (wallHugUntilClear wall_world 3 power_on) = 3"
proof -
  have three: "unat (3 :: 8 word) = Suc (Suc (Suc 0))" by simp
  show ?thesis
    unfolding wallHugUntilClear_def three
    by (simp add: readDistance_def wall_world_def wall_sample_def power_on_def motor_def
          delay_def constants Let_def)
qed

text \<open>
  C9, amended: \<open>wallHugUntilClear\<close> takes at most \<open>maxSteps\<close> distance readings and ends
  with the drive stopped; the commands before the final stop are at most \<open>maxSteps\<close>
  curve-right or forward commands. Each reading \<open>d\<close> falls into one of four zones
  around the hug distance of 10: \<open>d < 7\<close> curves away and goes on; \<open>7 \<le> d < 15\<close> drives
  straight and goes on; \<open>15 \<le> d \<le> 20\<close> issues nothing and goes on; \<open>d > 20\<close> (which
  includes the no-echo reading 999) leaves the loop.
\<close>

theorem wallHug_zones_and_budget:
  "(fst (readDistance w m) < 7 \<longrightarrow>
      wallHugLoop w (Suc k) m =
        wallHugLoop w k (delay 50 (motor (CurveRight SPEED_NORMAL) (snd (readDistance w m)))))
   \<and> (7 \<le> fst (readDistance w m) \<and> fst (readDistance w m) < 15 \<longrightarrow>
      wallHugLoop w (Suc k) m =
        wallHugLoop w k (delay 50 (motor (Forward SPEED_NORMAL) (snd (readDistance w m)))))
   \<and> (15 \<le> fst (readDistance w m) \<and> fst (readDistance w m) \<le> 20 \<longrightarrow>
      wallHugLoop w (Suc k) m = wallHugLoop w k (delay 50 (snd (readDistance w m))))
   \<and> (20 < fst (readDistance w m) \<longrightarrow>
      wallHugLoop w (Suc k) m = snd (readDistance w m))
   \<and> (\<exists>cs. trace (wallHugUntilClear w maxSteps m) = trace m @ cs @ [Stop]
          \<and> length cs \<le> unat maxSteps
          \<and> set cs \<subseteq> {CurveRight SPEED_NORMAL, Forward SPEED_NORMAL})
   \<and> pings (wallHugUntilClear w maxSteps m) \<le> pings m + unat maxSteps
   \<and> last (trace (wallHugUntilClear w maxSteps m)) = Stop"
proof -
  have zones:
    "fst (readDistance w m) < 7 \<longrightarrow>
      wallHugLoop w (Suc k) m =
        wallHugLoop w k (delay 50 (motor (CurveRight SPEED_NORMAL) (snd (readDistance w m))))"
    "7 \<le> fst (readDistance w m) \<and> fst (readDistance w m) < 15 \<longrightarrow>
      wallHugLoop w (Suc k) m =
        wallHugLoop w k (delay 50 (motor (Forward SPEED_NORMAL) (snd (readDistance w m))))"
    "15 \<le> fst (readDistance w m) \<and> fst (readDistance w m) \<le> 20 \<longrightarrow>
      wallHugLoop w (Suc k) m = wallHugLoop w k (delay 50 (snd (readDistance w m)))"
    "20 < fst (readDistance w m) \<longrightarrow> wallHugLoop w (Suc k) m = snd (readDistance w m)"
    by (auto simp: DIST_WALL_HUG_def case_prod_beta)
  obtain cs where cs: "trace (wallHugLoop w (unat maxSteps) m) = trace m @ cs"
      "length cs \<le> unat maxSteps"
      "set cs \<subseteq> {CurveRight SPEED_NORMAL, Forward SPEED_NORMAL}"
      "pings (wallHugLoop w (unat maxSteps) m) \<le> pings m + unat maxSteps"
    using wallHugLoop_shape [of w "unat maxSteps" m] by blast
  have "\<exists>cs. trace (wallHugUntilClear w maxSteps m) = trace m @ cs @ [Stop]
          \<and> length cs \<le> unat maxSteps
          \<and> set cs \<subseteq> {CurveRight SPEED_NORMAL, Forward SPEED_NORMAL}"
    using cs by (intro exI [of _ cs]) (simp add: wallHugUntilClear_def)
  moreover have "pings (wallHugUntilClear w maxSteps m) \<le> pings m + unat maxSteps"
    using cs by (simp add: wallHugUntilClear_def)
  moreover have "last (trace (wallHugUntilClear w maxSteps m)) = Stop"
    by (simp add: wallHugUntilClear_def)
  ultimately show ?thesis using zones by blast
qed

theorem wallHug_zones_and_budget_witness:
  "15 \<le> fst (readDistance wall_world power_on) \<and> fst (readDistance wall_world power_on) \<le> 20
   \<and> wallHugLoop wall_world (Suc 0) power_on = delay 50 (snd (readDistance wall_world power_on))
   \<and> fst (readDistance course_world power_on) < 7
   \<and> wallHugLoop course_world (Suc 0) power_on =
       delay 50 (motor (CurveRight SPEED_NORMAL) (snd (readDistance course_world power_on)))
   \<and> 20 < fst (readDistance grey_world power_on)
   \<and> wallHugLoop grey_world (Suc 0) power_on = snd (readDistance grey_world power_on)"
  using wallHug_zones_and_budget [of wall_world power_on 0]
        wallHug_zones_and_budget [of course_world power_on 0]
        wallHug_zones_and_budget [of grey_world power_on 0]
  by (simp add: readDistance_def wall_world_def wall_sample_def course_world_def
        green_box_sample_def grey_world_def grey_sample_def power_on_def ULTRA_SPEED_CM_def
        Let_def)


section \<open>Section 1: which states have a way out\<close>

lemma readAll_state:
  "snd (readAll w d m) = m\<lparr>clock := clock m + 30, pings := pings m + 1\<rparr>"
  by (simp add: readAll_def readUltrasonic_def readDistance_def Sensors_readColor_def
        readColorRaw_def readIR_def delay_def TIME_SENSOR_READ_def Let_def split: prod.splits)

lemma followColorLine_mission [simp]:
  fixes m :: Mission
  shows "currentState (snd (followColorLine d T m)) = currentState m"
    and "stateStartTime (snd (followColorLine d T m)) = stateStartTime m"
    and "sensors (snd (followColorLine d T m)) = sensors m"
    and "clock (snd (followColorLine d T m)) = clock m"
  by (simp_all add: followColorLine_def motor_def Let_def)

text \<open>The line search changes neither the mission state nor its entry time.\<close>

lemma searchLoop_keeps:
  fixes m :: Mission
  shows "currentState (snd (searchLoop w c t s d m)) = currentState m
       \<and> stateStartTime (snd (searchLoop w c t s d m)) = stateStartTime m
       \<and> clock m \<le> clock (snd (searchLoop w c t s d m))"
proof (induction w c t s d m rule: searchLoop.induct)
  case (1 w c maxTime startTime data m)
  obtain data' m1 where r: "readAll w data m = (data', m1)"
    by (cases "readAll w data m")
  have m1: "m1 = m\<lparr>clock := clock m + 30, pings := pings m + 1\<rparr>"
    using readAll_state [of w data m] r by simp
  define m2 where "m2 = (if 0 < sint (searchDirection m1)
          then motor (TurnRight SPEED_TURN) m1 else motor (TurnLeft SPEED_TURN) m1)"
  define m3 where "m3 = motor Stop (delay 200 m2)"
  define m4 where "m4 = m3\<lparr>searchDirection := searchDirection m3 * - 1\<rparr>"
  have step: "currentState m4 = currentState m" "stateStartTime m4 = stateStartTime m"
    "clock m \<le> clock m4"
    by (simp_all add: m4_def m3_def m2_def m1 motor_def delay_def)
  show ?case
  proof (cases "clock m - startTime < unat maxTime \<and> detectedColor data' \<noteq> c")
    case True
    then have go: "searchLoop w c maxTime startTime data m = searchLoop w c maxTime startTime data' m4"
      by (subst searchLoop.simps) (simp add: r m2_def m3_def m4_def Let_def)
    have "currentState (snd (searchLoop w c maxTime startTime data' m4)) = currentState m4
       \<and> stateStartTime (snd (searchLoop w c maxTime startTime data' m4)) = stateStartTime m4
       \<and> clock m4 \<le> clock (snd (searchLoop w c maxTime startTime data' m4))"
      using True by (intro "1.IH" [OF _ refl r [symmetric] _ m2_def m3_def m4_def]) simp_all
    then show ?thesis using step unfolding go by simp
  next
    case False
    then have "searchLoop w c maxTime startTime data m = (True, m1)
             \<or> searchLoop w c maxTime startTime data m = (False, m)"
      by (subst searchLoop.simps, subst searchLoop.simps) (auto simp: r Let_def)
    then show ?thesis by (auto simp: m1)
  qed
qed

lemma follow_green_tick:
  assumes nb: "\<And>d (m :: Mission). detectedColor (fst (readAll w d m)) \<noteq> COLOR_BLUE"
    and st: "currentState m = STATE_FOLLOW_GREEN"
  shows "\<exists>m'. loop w m = Some m' \<and> currentState m' = STATE_FOLLOW_GREEN
            \<and> stateStartTime m' = stateStartTime m \<and> clock m + 80 \<le> clock m'"
proof -
  obtain data m1 where r: "readAll w (sensors m) m = (data, m1)"
    by (cases "readAll w (sensors m) m")
  have m1: "m1 = m\<lparr>clock := clock m + 30, pings := pings m + 1\<rparr>"
    using readAll_state [of w "sensors m" m] r by simp
  have col: "detectedColor data \<noteq> COLOR_BLUE"
    using nb [of "sensors m" m] r by simp
  define m2 where "m2 = m1\<lparr>sensors := data\<rparr>"
  define m3 where "m3 = snd (followColorLine (sensors m2) COLOR_GREEN m2)"
  define res where "res = fst (followColorLine (sensors m2) COLOR_GREEN m2)"
  define m4 where "m4 = (if res = NAV_LOST then snd (searchForLine w COLOR_GREEN 1000 m3) else m3)"
  have m2: "currentState m2 = STATE_FOLLOW_GREEN" "stateStartTime m2 = stateStartTime m"
    "clock m2 = clock m + 30" "detectedColor (sensors m2) \<noteq> COLOR_BLUE"
    using st col by (simp_all add: m2_def m1)
  have m3: "currentState m3 = STATE_FOLLOW_GREEN" "stateStartTime m3 = stateStartTime m"
    "clock m3 = clock m + 30" "detectedColor (sensors m3) \<noteq> COLOR_BLUE"
    using m2 by (simp_all add: m3_def)
  have m4: "currentState m4 = STATE_FOLLOW_GREEN" "stateStartTime m4 = stateStartTime m"
    "clock m + 30 \<le> clock m4"
    using m3 searchLoop_keeps [of w COLOR_GREEN 1000 "clock m3" local_data m3]
    by (auto simp: m4_def searchForLine_def)
  have "processState w m2 = Some m4"
    using m2(1) m3(4)
    by (simp add: processState_def m4_def m3_def res_def Let_def case_prod_beta)
  then have "loop w m = Some (delay TIME_LOOP_DELAY m4)"
    by (simp add: loop_def r m2_def)
  then show ?thesis
    using m4 by (simp add: delay_def TIME_LOOP_DELAY_def)
qed

lemma follow_green_persists:
  assumes nb: "\<And>d (m :: Mission). detectedColor (fst (readAll w d m)) \<noteq> COLOR_BLUE"
  shows "currentState m = STATE_FOLLOW_GREEN \<Longrightarrow>
         \<exists>m'. run n w m = Some m' \<and> currentState m' = STATE_FOLLOW_GREEN
            \<and> stateStartTime m' = stateStartTime m \<and> clock m + 80 * n \<le> clock m'"
proof (induction n arbitrary: m)
  case 0
  then show ?case by simp
next
  case (Suc n)
  from follow_green_tick [OF nb Suc.prems] obtain m1 where
    m1: "loop w m = Some m1" "currentState m1 = STATE_FOLLOW_GREEN"
        "stateStartTime m1 = stateStartTime m" "clock m + 80 \<le> clock m1"
    by blast
  from Suc.IH [OF m1(2)] obtain m' where
    "run n w m1 = Some m'" "currentState m' = STATE_FOLLOW_GREEN"
    "stateStartTime m' = stateStartTime m1" "clock m1 + 80 * n \<le> clock m'"
    by blast
  then show ?case using m1 by simp
qed

lemma follow_green_stays:
  assumes nb: "\<And>d (m :: Mission). detectedColor (fst (readAll w d m)) \<noteq> COLOR_BLUE"
    and st: "currentState m = STATE_FOLLOW_GREEN" and le: "stateStartTime m \<le> clock m"
  shows "in_state_for n w m STATE_FOLLOW_GREEN (clock m - stateStartTime m + 80 * n)"
proof -
  from follow_green_persists [OF nb st, of n] obtain m' where
    "run n w m = Some m'" "currentState m' = STATE_FOLLOW_GREEN"
    "stateStartTime m' = stateStartTime m" "clock m + 80 * n \<le> clock m'"
    by blast
  then show ?thesis using le by (simp add: in_state_for_def)
qed

lemma run_add: "run (a + b) w m = (case run a w m of None \<Rightarrow> None | Some m' \<Rightarrow> run b w m')"
  by (induction a arbitrary: m) (simp_all split: option.splits)

lemma to_reupload_tick:
  assumes st: "currentState m = STATE_TO_REUPLOAD" and le: "stateStartTime m \<le> clock m"
  shows "\<exists>m'. loop w m = Some m'
            \<and> (if 2970 < clock m - stateStartTime m
                then currentState m' = STATE_COMPLETE
                else currentState m' = STATE_TO_REUPLOAD
                     \<and> stateStartTime m' = stateStartTime m \<and> clock m' = clock m + 80)"
proof -
  obtain data m1 where r: "readAll w (sensors m) m = (data, m1)"
    by (cases "readAll w (sensors m) m")
  have m1: "m1 = m\<lparr>clock := clock m + 30, pings := pings m + 1\<rparr>"
    using readAll_state [of w "sensors m" m] r by simp
  define m2 where "m2 = m1\<lparr>sensors := data\<rparr>"
  have m2: "currentState m2 = STATE_TO_REUPLOAD" "stateStartTime m2 = stateStartTime m"
    "clock m2 = clock m + 30"
    using st by (simp_all add: m2_def m1)
  define m3 where "m3 = snd (followColorLine (sensors m2) COLOR_GREEN m2)"
  have m3: "currentState m3 = STATE_TO_REUPLOAD" "stateStartTime m3 = stateStartTime m"
    "clock m3 = clock m + 30"
    using m2 by (simp_all add: m3_def)
  have ps: "processState w m2 =
      (if 3000 < clock m3 - stateStartTime m3
       then Some (transitionTo STATE_COMPLETE (motor Stop m3)) else Some m3)"
    using m2(1) by (simp add: processState_def m3_def Let_def case_prod_beta)
  have lp: "loop w m = (case processState w m2 of None \<Rightarrow> None
                        | Some m3 \<Rightarrow> Some (delay TIME_LOOP_DELAY m3))"
    by (simp add: loop_def r m2_def)
  show ?thesis
    unfolding lp ps using m3 le
    by (auto simp: transitionTo_def Navigation_reset_def delay_def motor_def
          TIME_LOOP_DELAY_def)
qed

lemma to_reupload_within:
  "currentState m = STATE_TO_REUPLOAD \<Longrightarrow> stateStartTime m \<le> clock m \<Longrightarrow>
   2971 \<le> clock m - stateStartTime m + 80 * k \<Longrightarrow>
   \<exists>n m'. n \<le> Suc k \<and> run n w m = Some m' \<and> currentState m' = STATE_COMPLETE"
proof (induction k arbitrary: m)
  case 0
  from to_reupload_tick [OF "0.prems"(1,2), of w] "0.prems"(3)
  obtain m' where "loop w m = Some m'" "currentState m' = STATE_COMPLETE"
    by (auto split: if_splits)
  then have "run (Suc 0) w m = Some m'" by simp
  then show ?case using \<open>currentState m' = STATE_COMPLETE\<close> by blast
next
  case (Suc k)
  from to_reupload_tick [OF Suc.prems(1,2), of w]
  obtain m1 where m1: "loop w m = Some m1"
    "if 2970 < clock m - stateStartTime m
       then currentState m1 = STATE_COMPLETE
       else currentState m1 = STATE_TO_REUPLOAD
            \<and> stateStartTime m1 = stateStartTime m \<and> clock m1 = clock m + 80"
    by blast
  show ?case
  proof (cases "2970 < clock m - stateStartTime m")
    case True
    then have "run (Suc 0) w m = Some m1" "currentState m1 = STATE_COMPLETE"
      using m1 by simp_all
    then show ?thesis by (intro exI [of _ "Suc 0"] exI [of _ m1]) simp
  next
    case False
    then have s: "currentState m1 = STATE_TO_REUPLOAD" "stateStartTime m1 = stateStartTime m"
      "clock m1 = clock m + 80"
      using m1 by simp_all
    have "\<exists>n m'. n \<le> Suc k \<and> run n w m1 = Some m' \<and> currentState m' = STATE_COMPLETE"
      using s Suc.prems by (intro Suc.IH) simp_all
    then obtain n m' where "n \<le> Suc k" "run n w m1 = Some m'" "currentState m' = STATE_COMPLETE"
      by blast
    then show ?thesis
      using m1(1) by (intro exI [of _ "Suc n"] exI [of _ m']) simp
  qed
qed

lemma to_reupload_timeout:
  assumes "currentState m = STATE_TO_REUPLOAD" "3000 < clock m - stateStartTime m"
  shows "\<exists>m'. processState w m = Some m' \<and> currentState m' = STATE_COMPLETE"
  using assms
  by (simp add: processState_def transitionTo_def Navigation_reset_def Let_def case_prod_beta)

lemma course_world_never_blue:
  "detectedColor (fst (readAll course_world d m)) \<noteq> COLOR_BLUE"
  by (simp add: readAll_def readUltrasonic_def readDistance_def Sensors_readColor_def
        readColorRaw_def readIR_def delay_def detectColor_def course_world_def
        green_box_sample_def grey_sample_def constants Let_def split: prod.splits)

lemma grey_world_never_blue:
  "detectedColor (fst (readAll grey_world d m)) \<noteq> COLOR_BLUE"
  by (simp add: readAll_def readUltrasonic_def readDistance_def Sensors_readColor_def
        readColorRaw_def readIR_def delay_def detectColor_def grey_world_def
        grey_sample_def constants Let_def split: prod.splits)

lemmas sim_defs = loop_def processState_def readAll_def readUltrasonic_def readDistance_def
  Sensors_readColor_def readColorRaw_def readIR_def detectColor_def followBlackLine_def
  followColorLine_def transitionTo_def Navigation_reset_def pickup_def armDown_def armCarry_def
  closeClamp_def isHolding_def motor_def delay_def setup_section1_def Servos_init_def power_on_def
  course_world_def green_box_sample_def grey_sample_def constants Let_def

text \<open>
  From power-on in \<open>course_world\<close> the mission picks the box up, finds the green line
  and is in FOLLOW_GREEN after five passes of \<open>loop()\<close>, entered at 2450 ms.
\<close>

lemma course_reaches_follow_green:
  "\<exists>m. run 5 course_world (setup_section1 power_on) = Some m
      \<and> currentState m = STATE_FOLLOW_GREEN \<and> stateStartTime m = 2450 \<and> clock m = 2500"
proof -
  have five: "(5::nat) = Suc (Suc (Suc (Suc (Suc 0))))" by simp
  show ?thesis unfolding five by (simp add: sim_defs)
qed

text \<open>
  C6, as stated: every state that waits on a sensor condition is left within its
  budget even if the condition never comes true. FOLLOW_GREEN waits for BLUE and has
  no budget. In \<open>course_world\<close>, which never shows BLUE, the mission started from
  power-on is in FOLLOW_GREEN after 5 passes of \<open>loop()\<close> and is still there 1000 passes
  later, more than 80 seconds after it entered the state.
\<close>

theorem follow_green_no_fallback_counterexample:
  "in_state_for 5 course_world (setup_section1 power_on) STATE_FOLLOW_GREEN 50
   \<and> in_state_for 1005 course_world (setup_section1 power_on) STATE_FOLLOW_GREEN 80050"
proof -
  obtain m5 where m5: "run 5 course_world (setup_section1 power_on) = Some m5"
      "currentState m5 = STATE_FOLLOW_GREEN" "stateStartTime m5 = 2450" "clock m5 = 2500"
    using course_reaches_follow_green by blast
  have a: "in_state_for 5 course_world (setup_section1 power_on) STATE_FOLLOW_GREEN 50"
    using m5 by (simp add: in_state_for_def)
  have "in_state_for 1000 course_world m5 STATE_FOLLOW_GREEN
          (clock m5 - stateStartTime m5 + 80 * 1000)"
    using m5 by (intro follow_green_stays course_world_never_blue) simp_all
  moreover have "run 1005 course_world (setup_section1 power_on) = run 1000 course_world m5"
    using run_add [of 5 1000 course_world "setup_section1 power_on"] m5(1) by simp
  ultimately have "in_state_for 1005 course_world (setup_section1 power_on)
               STATE_FOLLOW_GREEN 80050"
    using m5 by (simp add: in_state_for_def)
  then show ?thesis using a by simp
qed

text \<open>
  What one call of each handler does to the state, and that it never moves the entry
  time ahead of the clock.
\<close>

lemma loop_split:
  "loop w m =
    (case processState w
            ((snd (readAll w (sensors m) m))\<lparr>sensors := fst (readAll w (sensors m) m)\<rparr>) of
       None \<Rightarrow> None
     | Some m3 \<Rightarrow> Some (delay TIME_LOOP_DELAY m3))"
  by (simp add: loop_def case_prod_beta Let_def)

lemma after_read:
  fixes m :: Mission and w :: world
  defines "m2 \<equiv> (snd (readAll w (sensors m) m))\<lparr>sensors := fst (readAll w (sensors m) m)\<rparr>"
  shows "currentState m2 = currentState m" and "stateStartTime m2 = stateStartTime m"
    and "clock m2 = clock m + 30" and "searchAttempts m2 = searchAttempts m"
    and "sensors m2 = fst (readAll w (sensors m) m)"
  by (simp_all add: m2_def readAll_state)

lemma step_follow_black:
  assumes "currentState m = STATE_FOLLOW_BLACK"
  shows "\<exists>m'. processState w m = Some m'
     \<and> currentState m' = (if obstacleDetected (sensors m) \<and> distance (sensors m) < 15
                           then STATE_APPROACH_BOX else STATE_FOLLOW_BLACK)
     \<and> (stateStartTime m \<le> clock m \<longrightarrow> stateStartTime m' \<le> clock m')"
  using assms
  by (simp add: processState_def followBlackLine_def motor_def transitionTo_def
        Navigation_reset_def DIST_BOX_PICKUP_def Let_def)

lemma step_approach_box:
  assumes "currentState m = STATE_APPROACH_BOX"
  shows "\<exists>m'. processState w m = Some m'
     \<and> currentState m' = (if distance (sensors m) \<le> 5 then STATE_PICKUP else STATE_APPROACH_BOX)
     \<and> (stateStartTime m \<le> clock m \<longrightarrow> stateStartTime m' \<le> clock m')"
  using assms
  by (simp add: processState_def motor_def transitionTo_def
        Navigation_reset_def DIST_BOX_PICKUP_def Let_def)

lemma step_pickup:
  assumes "currentState m = STATE_PICKUP"
  shows "\<exists>m'. processState w m = Some m' \<and> currentState m' = STATE_FIND_INTERSECTION
     \<and> (stateStartTime m \<le> clock m \<longrightarrow> stateStartTime m' \<le> clock m')"
  using assms
  by (simp add: processState_def isHolding_def pickup_def armDown_def armCarry_def closeClamp_def
        delay_def transitionTo_def Navigation_reset_def Let_def)

lemma step_find_intersection:
  assumes "currentState m = STATE_FIND_INTERSECTION"
  shows "\<exists>m'. processState w m = Some m'
     \<and> currentState m' = (if detectedColor (sensors m) = COLOR_GREEN
                              \<or> detectedColor (sensors m) = COLOR_RED
                           then STATE_SELECT_GREEN else STATE_FIND_INTERSECTION)
     \<and> (stateStartTime m \<le> clock m \<longrightarrow> stateStartTime m' \<le> clock m')"
  using assms
  by (simp add: processState_def followBlackLine_def motor_def transitionTo_def
        Navigation_reset_def Let_def)

lemma step_select_green:
  assumes "currentState m = STATE_SELECT_GREEN"
  shows "\<exists>m'. processState w m = Some m'
     \<and> (currentState m' = STATE_FOLLOW_GREEN
          \<or> currentState m' = STATE_SELECT_GREEN \<and> unat (searchAttempts m) < 4
             \<and> searchAttempts m' = searchAttempts m + 1)
     \<and> (stateStartTime m \<le> clock m \<longrightarrow> stateStartTime m' \<le> clock m')"
  using assms
  by (simp add: processState_def case_prod_beta readAll_state turn_def motor_def delay_def
        transitionTo_def Navigation_reset_def word_less_nat_alt Let_def)

lemma step_follow_green:
  assumes st: "currentState m = STATE_FOLLOW_GREEN"
  shows "\<exists>m'. processState w m = Some m'
     \<and> currentState m' = (if detectedColor (sensors m) = COLOR_BLUE
                           then STATE_APPROACH_BLUE else STATE_FOLLOW_GREEN)
     \<and> (stateStartTime m \<le> clock m \<longrightarrow> stateStartTime m' \<le> clock m')"
proof -
  define m1 where "m1 = snd (followColorLine (sensors m) COLOR_GREEN m)"
  define res where "res = fst (followColorLine (sensors m) COLOR_GREEN m)"
  define m2 where "m2 = (if detectedColor (sensors m1) = COLOR_BLUE
                          then transitionTo STATE_APPROACH_BLUE m1 else m1)"
  define m3 where "m3 = (if res = NAV_LOST then snd (searchForLine w COLOR_GREEN 1000 m2) else m2)"
  have ps: "processState w m = Some m3"
    using st by (simp add: processState_def m3_def m2_def m1_def res_def Let_def case_prod_beta)
  have m2: "currentState m2 = (if detectedColor (sensors m) = COLOR_BLUE
                           then STATE_APPROACH_BLUE else STATE_FOLLOW_GREEN)"
    "stateStartTime m \<le> clock m \<longrightarrow> stateStartTime m2 \<le> clock m2"
    using st by (simp_all add: m2_def m1_def transitionTo_def Navigation_reset_def)
  have m3: "currentState m3 = currentState m2" "stateStartTime m3 = stateStartTime m2"
    "clock m2 \<le> clock m3"
    using searchLoop_keeps [of w COLOR_GREEN 1000 "clock m2" local_data m2]
    by (simp_all add: m3_def searchForLine_def)
  show ?thesis using ps m2 m3 by auto
qed

lemma step_approach_blue:
  assumes "currentState m = STATE_APPROACH_BLUE"
  shows "\<exists>m'. processState w m = Some m' \<and> currentState m' = STATE_DROP
     \<and> (stateStartTime m \<le> clock m \<longrightarrow> stateStartTime m' \<le> clock m')"
  using assms
  by (simp add: processState_def motor_def delay_def transitionTo_def Navigation_reset_def Let_def)

lemma step_drop:
  assumes "currentState m = STATE_DROP"
  shows "\<exists>m'. processState w m = Some m' \<and> currentState m' = STATE_TO_REUPLOAD
     \<and> (stateStartTime m \<le> clock m \<longrightarrow> stateStartTime m' \<le> clock m')"
  using assms
  by (simp add: processState_def isHolding_def drop_box_def armDown_def armCarry_def openClamp_def
        delay_def transitionTo_def Navigation_reset_def Let_def)

lemma step_to_reupload:
  assumes "currentState m = STATE_TO_REUPLOAD"
  shows "\<exists>m'. processState w m = Some m'
     \<and> currentState m' = (if 3000 < clock m - stateStartTime m
                           then STATE_COMPLETE else STATE_TO_REUPLOAD)
     \<and> (stateStartTime m \<le> clock m \<longrightarrow> stateStartTime m' \<le> clock m')"
  using assms
  by (simp add: processState_def case_prod_beta motor_def transitionTo_def
        Navigation_reset_def Let_def)


lemma loop_step:
  fixes m :: Mission
  assumes "processState w ((snd (readAll w (sensors m) m))\<lparr>sensors := fst (readAll w (sensors m) m)\<rparr>)
             = Some m'"
  shows "loop w m = Some (delay TIME_LOOP_DELAY m')"
    and "currentState (delay TIME_LOOP_DELAY m') = currentState m'"
    and "stateStartTime (delay TIME_LOOP_DELAY m') = stateStartTime m'"
    and "searchAttempts (delay TIME_LOOP_DELAY m') = searchAttempts m'"
    and "clock m' \<le> clock (delay TIME_LOOP_DELAY m')"
  using assms by (simp_all add: loop_split delay_def)

lemma loop_inv:
  assumes ni: "currentState m \<noteq> STATE_INIT" and le: "stateStartTime m \<le> clock m"
    and lp: "loop w m = Some m'"
  shows "currentState m' \<noteq> STATE_INIT \<and> stateStartTime m' \<le> clock m'"
proof -
  define m2 where "m2 = (snd (readAll w (sensors m) m))\<lparr>sensors := fst (readAll w (sensors m) m)\<rparr>"
  have m2: "currentState m2 = currentState m" "stateStartTime m2 \<le> clock m2"
    using le after_read(1,2,3) [of w m] by (simp_all add: m2_def)
  have "\<exists>x. processState w m2 = Some x \<and> currentState x \<noteq> STATE_INIT
          \<and> stateStartTime x \<le> clock x"
  proof (cases "currentState m2")
    case STATE_INIT
    then show ?thesis using ni m2 by simp
  next
    case STATE_FOLLOW_BLACK
    from step_follow_black [OF this, of w] show ?thesis using m2(2) by auto
  next
    case STATE_APPROACH_BOX
    from step_approach_box [OF this, of w] show ?thesis using m2(2) by auto
  next
    case STATE_PICKUP
    from step_pickup [OF this, of w] show ?thesis using m2(2) by auto
  next
    case STATE_FIND_INTERSECTION
    from step_find_intersection [OF this, of w] show ?thesis using m2(2) by auto
  next
    case STATE_SELECT_GREEN
    from step_select_green [OF this, of w] show ?thesis using m2(2) by auto
  next
    case STATE_FOLLOW_GREEN
    from step_follow_green [OF this, of w] show ?thesis using m2(2) by auto
  next
    case STATE_APPROACH_BLUE
    from step_approach_blue [OF this, of w] show ?thesis using m2(2) by auto
  next
    case STATE_DROP
    from step_drop [OF this, of w] show ?thesis using m2(2) by auto
  next
    case STATE_TO_REUPLOAD
    from step_to_reupload [OF this, of w] show ?thesis using m2(2) by auto
  next
    case STATE_COMPLETE
    then have "processState w m2 = None" by (simp add: processState_def)
    then show ?thesis using lp by (simp add: loop_split m2_def)
  qed
  then obtain x where x: "processState w m2 = Some x" "currentState x \<noteq> STATE_INIT"
    "stateStartTime x \<le> clock x" by blast
  from loop_step [OF x(1) [unfolded m2_def]] lp x(2,3) show ?thesis by auto
qed

lemma run_inv:
  "run n w m = Some m' \<Longrightarrow> currentState m \<noteq> STATE_INIT \<Longrightarrow> stateStartTime m \<le> clock m \<Longrightarrow>
   currentState m' \<noteq> STATE_INIT \<and> stateStartTime m' \<le> clock m'"
proof (induction n arbitrary: m)
  case 0
  then show ?case by simp
next
  case (Suc n)
  then obtain m1 where m1: "loop w m = Some m1" "run n w m1 = Some m'"
    by (auto split: option.splits)
  from loop_inv [OF Suc.prems(2,3) m1(1)] Suc.IH [OF m1(2)] show ?case by blast
qed

lemma setup_inv:
  "currentState (setup_section1 power_on) = STATE_FOLLOW_BLACK"
  "stateStartTime (setup_section1 power_on) \<le> clock (setup_section1 power_on)"
  by (simp_all add: setup_section1_def transitionTo_def Navigation_reset_def)

lemma forced_one_pass:
  assumes "currentState m = s"
    and "\<And>x :: Mission. currentState x = s \<Longrightarrow>
           \<exists>m'. processState w x = Some m' \<and> currentState m' = t
              \<and> (stateStartTime x \<le> clock x \<longrightarrow> stateStartTime m' \<le> clock m')"
  shows "\<exists>m'. loop w m = Some m' \<and> currentState m' = t"
proof -
  define m2 where "m2 = (snd (readAll w (sensors m) m))\<lparr>sensors := fst (readAll w (sensors m) m)\<rparr>"
  have "currentState m2 = s" using assms(1) after_read(1) [of w m] by (simp add: m2_def)
  from assms(2) [OF this] obtain x where x: "processState w m2 = Some x" "currentState x = t"
    by blast
  from loop_step(1,2) [OF x(1) [unfolded m2_def]] x(2) show ?thesis by simp
qed

lemma select_green_within:
  "currentState m = STATE_SELECT_GREEN \<Longrightarrow> 4 \<le> unat (searchAttempts m) + k \<Longrightarrow>
   \<exists>n m'. n \<le> Suc k \<and> run n w m = Some m' \<and> currentState m' = STATE_FOLLOW_GREEN"
proof (induction k arbitrary: m)
  case 0
  define m2 where "m2 = (snd (readAll w (sensors m) m))\<lparr>sensors := fst (readAll w (sensors m) m)\<rparr>"
  have m2: "currentState m2 = STATE_SELECT_GREEN" "searchAttempts m2 = searchAttempts m"
    using "0.prems"(1) after_read(1,4) [of w m] by (simp_all add: m2_def)
  from step_select_green [OF m2(1), of w] "0.prems"(2) m2(2)
  obtain x where x: "processState w m2 = Some x" "currentState x = STATE_FOLLOW_GREEN"
    by auto
  from loop_step(1,2) [OF x(1) [unfolded m2_def]] x(2)
  have "run (Suc 0) w m = Some (delay TIME_LOOP_DELAY x)"
    "currentState (delay TIME_LOOP_DELAY x) = STATE_FOLLOW_GREEN" by simp_all
  then show ?case by blast
next
  case (Suc k)
  define m2 where "m2 = (snd (readAll w (sensors m) m))\<lparr>sensors := fst (readAll w (sensors m) m)\<rparr>"
  have m2: "currentState m2 = STATE_SELECT_GREEN" "searchAttempts m2 = searchAttempts m"
    using Suc.prems(1) after_read(1,4) [of w m] by (simp_all add: m2_def)
  from step_select_green [OF m2(1), of w]
  obtain x where x: "processState w m2 = Some x"
    "currentState x = STATE_FOLLOW_GREEN
       \<or> currentState x = STATE_SELECT_GREEN \<and> unat (searchAttempts m2) < 4
          \<and> searchAttempts x = searchAttempts m2 + 1"
    by blast
  let ?m1 = "delay TIME_LOOP_DELAY x"
  have lp: "loop w m = Some ?m1" "currentState ?m1 = currentState x"
    "searchAttempts ?m1 = searchAttempts x"
    using loop_step(1,2,4) [OF x(1) [unfolded m2_def]] by simp_all
  show ?case
  proof (cases "currentState x = STATE_FOLLOW_GREEN")
    case True
    then have "run (Suc 0) w m = Some ?m1" "currentState ?m1 = STATE_FOLLOW_GREEN"
      using lp by simp_all
    then show ?thesis by (intro exI [of _ "Suc 0"] exI [of _ ?m1]) simp
  next
    case False
    then have s: "currentState x = STATE_SELECT_GREEN" "unat (searchAttempts m2) < 4"
      "searchAttempts x = searchAttempts m2 + 1"
      using x(2) by simp_all
    have "unat (searchAttempts m2 + 1) = (unat (searchAttempts m2) + 1) mod 256"
      by (simp add: unat_word_ariths)
    then have "unat (searchAttempts ?m1) = unat (searchAttempts m) + 1"
      using s m2(2) lp(3) by simp
    then have "\<exists>n m'. n \<le> Suc k \<and> run n w ?m1 = Some m' \<and> currentState m' = STATE_FOLLOW_GREEN"
      using s(1) lp(2) Suc.prems(2) by (intro Suc.IH) simp_all
    then obtain n m' where "n \<le> Suc k" "run n w ?m1 = Some m'"
      "currentState m' = STATE_FOLLOW_GREEN" by blast
    then show ?thesis
      using lp(1) by (intro exI [of _ "Suc n"] exI [of _ m']) simp
  qed
qed

lemma box_world_read:
  fixes m :: Mission
  shows "obstacleDetected (fst (readAll box_world d m))"
    and "distance (fst (readAll box_world d m)) < 5"
    and "detectedColor (fst (readAll box_world d m)) = COLOR_GREEN"
  by (simp_all add: readAll_def readUltrasonic_def readDistance_def Sensors_readColor_def
        readColorRaw_def readIR_def delay_def detectColor_def box_world_def
        green_box_sample_def constants Let_def split: prod.splits)

lemma blue_world_read:
  fixes m :: Mission
  shows "detectedColor (fst (readAll blue_world d m)) = COLOR_BLUE"
  by (simp add: readAll_def readUltrasonic_def readDistance_def Sensors_readColor_def
        readColorRaw_def readIR_def delay_def detectColor_def blue_world_def
        blue_sample_def constants Let_def split: prod.splits)

lemma gated_exit:
  fixes m :: Mission
  assumes "currentState m = s"
    and "\<And>x :: Mission. currentState x = s \<Longrightarrow> sensors x = fst (readAll w (sensors m) m) \<Longrightarrow>
           \<exists>m'. processState w x = Some m' \<and> currentState m' = t"
  shows "\<exists>m'. run (Suc 0) w m = Some m' \<and> currentState m' = t"
proof -
  define m2 where "m2 = (snd (readAll w (sensors m) m))\<lparr>sensors := fst (readAll w (sensors m) m)\<rparr>"
  have "currentState m2 = s" "sensors m2 = fst (readAll w (sensors m) m)"
    using assms(1) after_read(1,5) [of w m] by (simp_all add: m2_def)
  from assms(2) [OF this] obtain x where x: "processState w m2 = Some x" "currentState x = t"
    by blast
  from loop_step(1,2) [OF x(1) [unfolded m2_def]] x(2) show ?thesis by simp
qed

lemma exit_path:
  assumes a: "currentState m \<noteq> STATE_INIT" and b: "currentState m \<noteq> STATE_COMPLETE"
    and le: "stateStartTime m \<le> clock m"
  shows "\<exists>w n m'. n \<le> 39 \<and> run n w m = Some m' \<and> currentState m' \<noteq> currentState m"
proof (cases "currentState m")
  case STATE_INIT
  then show ?thesis using a by simp
next
  case STATE_FOLLOW_BLACK
  have "\<exists>m'. run (Suc 0) box_world m = Some m' \<and> currentState m' = STATE_APPROACH_BOX"
  proof (rule gated_exit [OF STATE_FOLLOW_BLACK])
    fix x :: Mission
    assume "currentState x = STATE_FOLLOW_BLACK" "sensors x = fst (readAll box_world (sensors m) m)"
    then show "\<exists>m'. processState box_world x = Some m' \<and> currentState m' = STATE_APPROACH_BOX"
      using step_follow_black [of x box_world] box_world_read(1,2) [of "sensors m" m] by auto
  qed
  then show ?thesis using STATE_FOLLOW_BLACK by (intro exI [of _ box_world] exI [of _ "Suc 0"]) auto
next
  case STATE_APPROACH_BOX
  have "\<exists>m'. run (Suc 0) box_world m = Some m' \<and> currentState m' = STATE_PICKUP"
  proof (rule gated_exit [OF STATE_APPROACH_BOX])
    fix x :: Mission
    assume "currentState x = STATE_APPROACH_BOX" "sensors x = fst (readAll box_world (sensors m) m)"
    then show "\<exists>m'. processState box_world x = Some m' \<and> currentState m' = STATE_PICKUP"
      using step_approach_box [of x box_world] box_world_read(2) [of "sensors m" m] by auto
  qed
  then show ?thesis using STATE_APPROACH_BOX by (intro exI [of _ box_world] exI [of _ "Suc 0"]) auto
next
  case STATE_PICKUP
  from forced_one_pass [OF this step_pickup, of grey_world]
  obtain m' where "run (Suc 0) grey_world m = Some m'" "currentState m' = STATE_FIND_INTERSECTION"
    by auto
  then show ?thesis using STATE_PICKUP by (intro exI [of _ grey_world] exI [of _ "Suc 0"]) auto
next
  case STATE_FIND_INTERSECTION
  have "\<exists>m'. run (Suc 0) box_world m = Some m' \<and> currentState m' = STATE_SELECT_GREEN"
  proof (rule gated_exit [OF STATE_FIND_INTERSECTION])
    fix x :: Mission
    assume "currentState x = STATE_FIND_INTERSECTION"
      "sensors x = fst (readAll box_world (sensors m) m)"
    then show "\<exists>m'. processState box_world x = Some m' \<and> currentState m' = STATE_SELECT_GREEN"
      using step_find_intersection [of x box_world] box_world_read(3) [of "sensors m" m] by auto
  qed
  then show ?thesis
    using STATE_FIND_INTERSECTION by (intro exI [of _ box_world] exI [of _ "Suc 0"]) auto
next
  case STATE_SELECT_GREEN
  from select_green_within [OF this, of 4 grey_world]
  obtain n m' where "n \<le> 5" "run n grey_world m = Some m'" "currentState m' = STATE_FOLLOW_GREEN"
    by auto
  then show ?thesis using STATE_SELECT_GREEN by (intro exI [of _ grey_world] exI [of _ n]) auto
next
  case STATE_FOLLOW_GREEN
  have "\<exists>m'. run (Suc 0) blue_world m = Some m' \<and> currentState m' = STATE_APPROACH_BLUE"
  proof (rule gated_exit [OF STATE_FOLLOW_GREEN])
    fix x :: Mission
    assume "currentState x = STATE_FOLLOW_GREEN" "sensors x = fst (readAll blue_world (sensors m) m)"
    then show "\<exists>m'. processState blue_world x = Some m' \<and> currentState m' = STATE_APPROACH_BLUE"
      using step_follow_green [of x blue_world] blue_world_read [of "sensors m" m] by auto
  qed
  then show ?thesis
    using STATE_FOLLOW_GREEN by (intro exI [of _ blue_world] exI [of _ "Suc 0"]) auto
next
  case STATE_APPROACH_BLUE
  from forced_one_pass [OF this step_approach_blue, of grey_world]
  obtain m' where "run (Suc 0) grey_world m = Some m'" "currentState m' = STATE_DROP"
    by auto
  then show ?thesis using STATE_APPROACH_BLUE by (intro exI [of _ grey_world] exI [of _ "Suc 0"]) auto
next
  case STATE_DROP
  from forced_one_pass [OF this step_drop, of grey_world]
  obtain m' where "run (Suc 0) grey_world m = Some m'" "currentState m' = STATE_TO_REUPLOAD"
    by auto
  then show ?thesis using STATE_DROP by (intro exI [of _ grey_world] exI [of _ "Suc 0"]) auto
next
  case STATE_TO_REUPLOAD
  have "(2971 :: nat) \<le> clock m - stateStartTime m + 80 * 38" by arith
  from to_reupload_within [OF STATE_TO_REUPLOAD le this, of grey_world]
  obtain n m' where "n \<le> 39" "run n grey_world m = Some m'" "currentState m' = STATE_COMPLETE"
    by auto
  then show ?thesis using STATE_TO_REUPLOAD by (intro exI [of _ grey_world] exI [of _ n]) auto
next
  case STATE_COMPLETE
  then show ?thesis using b by simp
qed

text \<open>
  C6, amended: every state a run from \<open>setup()\<close> can be in is one with a handler, and
  every non-terminal one of them has an exit path. The machine leaves regardless of
  the sensors from TO_REUPLOAD, by its wall-clock budget (the pass that sees more than
  3000 ms since entry moves to COMPLETE, within 39 passes of \<open>loop()\<close>), from
  SELECT_GREEN, by its cap of four search attempts (within 5 passes), and from PICKUP,
  APPROACH_BLUE and DROP, in one pass. FOLLOW_BLACK, APPROACH_BOX, FIND_INTERSECTION
  and FOLLOW_GREEN have no forced fallback: a call of the handler leaves them exactly
  when the sensor condition holds (an obstacle nearer than 15 cm; a distance of at
  most 5 cm; GREEN or RED; BLUE) and stays otherwise, however long the state has
  lasted; with no read ever classifying BLUE the mission is in FOLLOW_GREEN after any
  number of passes, each at least 80 ms long.
\<close>

theorem section1_exits:
  "(case run k w (setup_section1 power_on) of
      None \<Rightarrow> True
    | Some r \<Rightarrow> currentState r \<noteq> STATE_INIT \<and> stateStartTime r \<le> clock r)
   \<and> (currentState m \<noteq> STATE_INIT \<and> currentState m \<noteq> STATE_COMPLETE
        \<and> stateStartTime m \<le> clock m \<longrightarrow>
      (\<exists>w' j m'. j \<le> 39 \<and> run j w' m = Some m' \<and> currentState m' \<noteq> currentState m))
   \<and> (currentState m = STATE_TO_REUPLOAD \<and> 3000 < clock m - stateStartTime m \<longrightarrow>
      (\<exists>m'. processState w m = Some m' \<and> currentState m' = STATE_COMPLETE))
   \<and> (currentState m = STATE_TO_REUPLOAD \<and> stateStartTime m \<le> clock m \<longrightarrow>
      (\<exists>j m'. j \<le> 39 \<and> run j w m = Some m' \<and> currentState m' = STATE_COMPLETE))
   \<and> (currentState m = STATE_SELECT_GREEN \<longrightarrow>
      (\<exists>j m'. j \<le> 5 \<and> run j w m = Some m' \<and> currentState m' = STATE_FOLLOW_GREEN))
   \<and> (currentState m = STATE_PICKUP \<longrightarrow>
      (\<exists>m'. loop w m = Some m' \<and> currentState m' = STATE_FIND_INTERSECTION))
   \<and> (currentState m = STATE_APPROACH_BLUE \<longrightarrow>
      (\<exists>m'. loop w m = Some m' \<and> currentState m' = STATE_DROP))
   \<and> (currentState m = STATE_DROP \<longrightarrow>
      (\<exists>m'. loop w m = Some m' \<and> currentState m' = STATE_TO_REUPLOAD))
   \<and> (currentState m = STATE_FOLLOW_BLACK \<longrightarrow>
      (\<exists>m'. processState w m = Some m'
         \<and> currentState m' = (if obstacleDetected (sensors m) \<and> distance (sensors m) < 15
                               then STATE_APPROACH_BOX else STATE_FOLLOW_BLACK)))
   \<and> (currentState m = STATE_APPROACH_BOX \<longrightarrow>
      (\<exists>m'. processState w m = Some m'
         \<and> currentState m' = (if distance (sensors m) \<le> 5
                               then STATE_PICKUP else STATE_APPROACH_BOX)))
   \<and> (currentState m = STATE_FIND_INTERSECTION \<longrightarrow>
      (\<exists>m'. processState w m = Some m'
         \<and> currentState m' = (if detectedColor (sensors m) = COLOR_GREEN
                                  \<or> detectedColor (sensors m) = COLOR_RED
                               then STATE_SELECT_GREEN else STATE_FIND_INTERSECTION)))
   \<and> (currentState m = STATE_FOLLOW_GREEN \<longrightarrow>
      (\<exists>m'. processState w m = Some m'
         \<and> currentState m' = (if detectedColor (sensors m) = COLOR_BLUE
                               then STATE_APPROACH_BLUE else STATE_FOLLOW_GREEN)))
   \<and> (currentState m = STATE_FOLLOW_GREEN \<and> stateStartTime m \<le> clock m
        \<and> (\<forall>d (x :: Mission). detectedColor (fst (readAll w d x)) \<noteq> COLOR_BLUE) \<longrightarrow>
      in_state_for n w m STATE_FOLLOW_GREEN (80 * n))"
proof (intro conjI impI)
  show "case run k w (setup_section1 power_on) of
      None \<Rightarrow> True
    | Some r \<Rightarrow> currentState r \<noteq> STATE_INIT \<and> stateStartTime r \<le> clock r"
    using run_inv [of k w "setup_section1 power_on"] setup_inv
    by (auto split: option.splits)
next
  assume "currentState m \<noteq> STATE_INIT \<and> currentState m \<noteq> STATE_COMPLETE
        \<and> stateStartTime m \<le> clock m"
  then show "\<exists>w' j m'. j \<le> 39 \<and> run j w' m = Some m' \<and> currentState m' \<noteq> currentState m"
    using exit_path [of m] by blast
next
  assume "currentState m = STATE_TO_REUPLOAD \<and> 3000 < clock m - stateStartTime m"
  then show "\<exists>m'. processState w m = Some m' \<and> currentState m' = STATE_COMPLETE"
    using to_reupload_timeout [of m w] by simp
next
  assume h: "currentState m = STATE_TO_REUPLOAD \<and> stateStartTime m \<le> clock m"
  have "(2971 :: nat) \<le> clock m - stateStartTime m + 80 * 38"
    by arith
  with h have "\<exists>n m'. n \<le> Suc 38 \<and> run n w m = Some m' \<and> currentState m' = STATE_COMPLETE"
    by (intro to_reupload_within) blast+
  then show "\<exists>j m'. j \<le> 39 \<and> run j w m = Some m' \<and> currentState m' = STATE_COMPLETE"
    by simp
next
  assume "currentState m = STATE_SELECT_GREEN"
  from select_green_within [OF this, of 4 w]
  show "\<exists>j m'. j \<le> 5 \<and> run j w m = Some m' \<and> currentState m' = STATE_FOLLOW_GREEN"
    by simp
next
  assume "currentState m = STATE_PICKUP"
  from forced_one_pass [OF this step_pickup]
  show "\<exists>m'. loop w m = Some m' \<and> currentState m' = STATE_FIND_INTERSECTION" .
next
  assume "currentState m = STATE_APPROACH_BLUE"
  from forced_one_pass [OF this step_approach_blue]
  show "\<exists>m'. loop w m = Some m' \<and> currentState m' = STATE_DROP" .
next
  assume "currentState m = STATE_DROP"
  from forced_one_pass [OF this step_drop]
  show "\<exists>m'. loop w m = Some m' \<and> currentState m' = STATE_TO_REUPLOAD" .
next
  assume "currentState m = STATE_FOLLOW_BLACK"
  from step_follow_black [OF this, of w]
  show "\<exists>m'. processState w m = Some m'
         \<and> currentState m' = (if obstacleDetected (sensors m) \<and> distance (sensors m) < 15
                               then STATE_APPROACH_BOX else STATE_FOLLOW_BLACK)"
    by blast
next
  assume "currentState m = STATE_APPROACH_BOX"
  from step_approach_box [OF this, of w]
  show "\<exists>m'. processState w m = Some m'
         \<and> currentState m' = (if distance (sensors m) \<le> 5
                               then STATE_PICKUP else STATE_APPROACH_BOX)"
    by blast
next
  assume "currentState m = STATE_FIND_INTERSECTION"
  from step_find_intersection [OF this, of w]
  show "\<exists>m'. processState w m = Some m'
         \<and> currentState m' = (if detectedColor (sensors m) = COLOR_GREEN
                                  \<or> detectedColor (sensors m) = COLOR_RED
                               then STATE_SELECT_GREEN else STATE_FIND_INTERSECTION)"
    by blast
next
  assume "currentState m = STATE_FOLLOW_GREEN"
  from step_follow_green [OF this, of w]
  show "\<exists>m'. processState w m = Some m'
         \<and> currentState m' = (if detectedColor (sensors m) = COLOR_BLUE
                               then STATE_APPROACH_BLUE else STATE_FOLLOW_GREEN)"
    by blast
next
  assume h: "currentState m = STATE_FOLLOW_GREEN \<and> stateStartTime m \<le> clock m
        \<and> (\<forall>d (x :: Mission). detectedColor (fst (readAll w d x)) \<noteq> COLOR_BLUE)"
  then have "in_state_for n w m STATE_FOLLOW_GREEN (clock m - stateStartTime m + 80 * n)"
    by (intro follow_green_stays) simp_all
  then show "in_state_for n w m STATE_FOLLOW_GREEN (80 * n)"
    by (auto simp: in_state_for_def split: option.splits)
qed

theorem section1_exits_witness:
  "(case run 5 course_world (setup_section1 power_on) of
      None \<Rightarrow> True
    | Some r \<Rightarrow> currentState r \<noteq> STATE_INIT \<and> stateStartTime r \<le> clock r)
   \<and> currentState (transitionTo STATE_TO_REUPLOAD power_on) = STATE_TO_REUPLOAD
   \<and> stateStartTime (transitionTo STATE_TO_REUPLOAD power_on)
       \<le> clock (transitionTo STATE_TO_REUPLOAD power_on)
   \<and> (\<exists>w' j m'. j \<le> 39 \<and> run j w' (transitionTo STATE_TO_REUPLOAD power_on) = Some m'
          \<and> currentState m' \<noteq> STATE_TO_REUPLOAD)
   \<and> (\<exists>j m'. j \<le> 39 \<and> run j grey_world (transitionTo STATE_TO_REUPLOAD power_on) = Some m'
          \<and> currentState m' = STATE_COMPLETE)
   \<and> 3000 < clock ((transitionTo STATE_TO_REUPLOAD power_on)\<lparr>clock := 3001\<rparr>)
              - stateStartTime ((transitionTo STATE_TO_REUPLOAD power_on)\<lparr>clock := 3001\<rparr>)
   \<and> (\<exists>m'. processState grey_world ((transitionTo STATE_TO_REUPLOAD power_on)\<lparr>clock := 3001\<rparr>)
              = Some m' \<and> currentState m' = STATE_COMPLETE)
   \<and> (\<exists>j m'. j \<le> 5 \<and> run j grey_world (transitionTo STATE_SELECT_GREEN power_on) = Some m'
          \<and> currentState m' = STATE_FOLLOW_GREEN)
   \<and> (\<exists>m'. loop grey_world (transitionTo STATE_PICKUP power_on) = Some m'
          \<and> currentState m' = STATE_FIND_INTERSECTION)
   \<and> (\<exists>m'. loop grey_world (transitionTo STATE_APPROACH_BLUE power_on) = Some m'
          \<and> currentState m' = STATE_DROP)
   \<and> (\<exists>m'. loop grey_world (transitionTo STATE_DROP power_on) = Some m'
          \<and> currentState m' = STATE_TO_REUPLOAD)
   \<and> (\<exists>m'. processState grey_world (transitionTo STATE_FOLLOW_BLACK power_on) = Some m'
          \<and> currentState m' = STATE_FOLLOW_BLACK)
   \<and> (\<exists>m'. processState grey_world
               ((transitionTo STATE_FOLLOW_BLACK power_on)
                  \<lparr>sensors := (sensors power_on)\<lparr>distance := 4, obstacleDetected := True\<rparr>\<rparr>)
             = Some m' \<and> currentState m' = STATE_APPROACH_BOX)
   \<and> (\<exists>m'. processState grey_world
               ((transitionTo STATE_APPROACH_BOX power_on)
                  \<lparr>sensors := (sensors power_on)\<lparr>distance := 4\<rparr>\<rparr>)
             = Some m' \<and> currentState m' = STATE_PICKUP)
   \<and> (\<exists>m'. processState grey_world
               ((transitionTo STATE_APPROACH_BOX power_on)
                  \<lparr>sensors := (sensors power_on)\<lparr>distance := 999\<rparr>\<rparr>)
             = Some m' \<and> currentState m' = STATE_APPROACH_BOX)
   \<and> (\<exists>m'. processState grey_world
               ((transitionTo STATE_FIND_INTERSECTION power_on)
                  \<lparr>sensors := (sensors power_on)\<lparr>detectedColor := COLOR_RED\<rparr>\<rparr>)
             = Some m' \<and> currentState m' = STATE_SELECT_GREEN)
   \<and> (\<exists>m'. processState grey_world (transitionTo STATE_FIND_INTERSECTION power_on) = Some m'
          \<and> currentState m' = STATE_FIND_INTERSECTION)
   \<and> (\<exists>m'. processState grey_world
               ((transitionTo STATE_FOLLOW_GREEN power_on)
                  \<lparr>sensors := (sensors power_on)\<lparr>detectedColor := COLOR_BLUE\<rparr>\<rparr>)
             = Some m' \<and> currentState m' = STATE_APPROACH_BLUE)
   \<and> (\<exists>m'. processState grey_world (transitionTo STATE_FOLLOW_GREEN power_on) = Some m'
          \<and> currentState m' = STATE_FOLLOW_GREEN)
   \<and> (\<forall>d (x :: Mission). detectedColor (fst (readAll grey_world d x)) \<noteq> COLOR_BLUE)
   \<and> in_state_for 100 grey_world (transitionTo STATE_FOLLOW_GREEN power_on)
        STATE_FOLLOW_GREEN 8000"
proof -
  have nb: "\<forall>d (x :: Mission). detectedColor (fst (readAll grey_world d x)) \<noteq> COLOR_BLUE"
    by (simp add: grey_world_never_blue)
  have inv: "case run 5 course_world (setup_section1 power_on) of
      None \<Rightarrow> True
    | Some r \<Rightarrow> currentState r \<noteq> STATE_INIT \<and> stateStartTime r \<le> clock r"
    using section1_exits [of 5 course_world power_on 0] by blast
  note defs = transitionTo_def Navigation_reset_def power_on_def
  have a: "(\<exists>w' j m'. j \<le> 39 \<and> run j w' (transitionTo STATE_TO_REUPLOAD power_on) = Some m'
          \<and> currentState m' \<noteq> STATE_TO_REUPLOAD)
     \<and> (\<exists>j m'. j \<le> 39 \<and> run j grey_world (transitionTo STATE_TO_REUPLOAD power_on) = Some m'
          \<and> currentState m' = STATE_COMPLETE)"
    using section1_exits [of 0 grey_world "transitionTo STATE_TO_REUPLOAD power_on" 0]
    by (simp add: defs)
  have b: "\<exists>m'. processState grey_world ((transitionTo STATE_TO_REUPLOAD power_on)\<lparr>clock := 3001\<rparr>)
              = Some m' \<and> currentState m' = STATE_COMPLETE"
    using section1_exits
            [of 0 grey_world "(transitionTo STATE_TO_REUPLOAD power_on)\<lparr>clock := 3001\<rparr>" 0]
    by (simp add: defs)
  have c: "\<exists>j m'. j \<le> 5 \<and> run j grey_world (transitionTo STATE_SELECT_GREEN power_on) = Some m'
          \<and> currentState m' = STATE_FOLLOW_GREEN"
    using section1_exits [of 0 grey_world "transitionTo STATE_SELECT_GREEN power_on" 0]
    by (simp add: defs)
  have d: "\<exists>m'. loop grey_world (transitionTo STATE_PICKUP power_on) = Some m'
          \<and> currentState m' = STATE_FIND_INTERSECTION"
    using section1_exits [of 0 grey_world "transitionTo STATE_PICKUP power_on" 0]
    by (simp add: defs)
  have e: "\<exists>m'. loop grey_world (transitionTo STATE_APPROACH_BLUE power_on) = Some m'
          \<and> currentState m' = STATE_DROP"
    using section1_exits [of 0 grey_world "transitionTo STATE_APPROACH_BLUE power_on" 0]
    by (simp add: defs)
  have f: "\<exists>m'. loop grey_world (transitionTo STATE_DROP power_on) = Some m'
          \<and> currentState m' = STATE_TO_REUPLOAD"
    using section1_exits [of 0 grey_world "transitionTo STATE_DROP power_on" 0]
    by (simp add: defs)
  have g: "(\<exists>m'. processState grey_world (transitionTo STATE_FOLLOW_BLACK power_on) = Some m'
          \<and> currentState m' = STATE_FOLLOW_BLACK)
     \<and> (\<exists>m'. processState grey_world
               ((transitionTo STATE_FOLLOW_BLACK power_on)
                  \<lparr>sensors := (sensors power_on)\<lparr>distance := 4, obstacleDetected := True\<rparr>\<rparr>)
             = Some m' \<and> currentState m' = STATE_APPROACH_BOX)"
    using section1_exits [of 0 grey_world "transitionTo STATE_FOLLOW_BLACK power_on" 0]
          section1_exits [of 0 grey_world "(transitionTo STATE_FOLLOW_BLACK power_on)
                  \<lparr>sensors := (sensors power_on)\<lparr>distance := 4, obstacleDetected := True\<rparr>\<rparr>" 0]
    by (simp add: defs)
  have h: "(\<exists>m'. processState grey_world
               ((transitionTo STATE_APPROACH_BOX power_on)
                  \<lparr>sensors := (sensors power_on)\<lparr>distance := 4\<rparr>\<rparr>)
             = Some m' \<and> currentState m' = STATE_PICKUP)
     \<and> (\<exists>m'. processState grey_world
               ((transitionTo STATE_APPROACH_BOX power_on)
                  \<lparr>sensors := (sensors power_on)\<lparr>distance := 999\<rparr>\<rparr>)
             = Some m' \<and> currentState m' = STATE_APPROACH_BOX)"
    using section1_exits [of 0 grey_world "(transitionTo STATE_APPROACH_BOX power_on)
                  \<lparr>sensors := (sensors power_on)\<lparr>distance := 4\<rparr>\<rparr>" 0]
          section1_exits [of 0 grey_world "(transitionTo STATE_APPROACH_BOX power_on)
                  \<lparr>sensors := (sensors power_on)\<lparr>distance := 999\<rparr>\<rparr>" 0]
    by (simp add: defs)
  have i: "(\<exists>m'. processState grey_world
               ((transitionTo STATE_FIND_INTERSECTION power_on)
                  \<lparr>sensors := (sensors power_on)\<lparr>detectedColor := COLOR_RED\<rparr>\<rparr>)
             = Some m' \<and> currentState m' = STATE_SELECT_GREEN)
     \<and> (\<exists>m'. processState grey_world (transitionTo STATE_FIND_INTERSECTION power_on) = Some m'
          \<and> currentState m' = STATE_FIND_INTERSECTION)"
    using section1_exits [of 0 grey_world "(transitionTo STATE_FIND_INTERSECTION power_on)
                  \<lparr>sensors := (sensors power_on)\<lparr>detectedColor := COLOR_RED\<rparr>\<rparr>" 0]
          section1_exits [of 0 grey_world "transitionTo STATE_FIND_INTERSECTION power_on" 0]
    by (simp add: defs)
  have j: "(\<exists>m'. processState grey_world
               ((transitionTo STATE_FOLLOW_GREEN power_on)
                  \<lparr>sensors := (sensors power_on)\<lparr>detectedColor := COLOR_BLUE\<rparr>\<rparr>)
             = Some m' \<and> currentState m' = STATE_APPROACH_BLUE)
     \<and> (\<exists>m'. processState grey_world (transitionTo STATE_FOLLOW_GREEN power_on) = Some m'
          \<and> currentState m' = STATE_FOLLOW_GREEN)
     \<and> in_state_for 100 grey_world (transitionTo STATE_FOLLOW_GREEN power_on)
          STATE_FOLLOW_GREEN 8000"
    using section1_exits [of 0 grey_world "(transitionTo STATE_FOLLOW_GREEN power_on)
                  \<lparr>sensors := (sensors power_on)\<lparr>detectedColor := COLOR_BLUE\<rparr>\<rparr>" 0]
          section1_exits [of 0 grey_world "transitionTo STATE_FOLLOW_GREEN power_on" 100] nb
    by (simp add: defs)
  have k: "currentState (transitionTo STATE_TO_REUPLOAD power_on) = STATE_TO_REUPLOAD
   \<and> stateStartTime (transitionTo STATE_TO_REUPLOAD power_on)
       \<le> clock (transitionTo STATE_TO_REUPLOAD power_on)
   \<and> 3000 < clock ((transitionTo STATE_TO_REUPLOAD power_on)\<lparr>clock := 3001\<rparr>)
              - stateStartTime ((transitionTo STATE_TO_REUPLOAD power_on)\<lparr>clock := 3001\<rparr>)"
    by (simp add: defs)
  show ?thesis
    using inv a b c d e f g h i j k nb by blast
qed

end
